theory Spec2Isabelle
  imports Main "HOL-Library.AList"
begin

section \<open>The reminder plugin's date parser and time formatter (reminder/util.py)\<close>

text \<open>
  The module has four functions of interest: \<open>DateArgument.match\<close> (the parser of a
  temporal expression at the start of a command), \<open>parse_timezone\<close>, \<open>pluralize\<close> and
  \<open>format_time\<close>. They rest on Python's \<open>re\<close>, \<open>datetime\<close>, \<open>pytz\<close> and
  \<open>dateutil.relativedelta\<close>; the parts of these libraries that the functions use are
  modelled first, then the functions themselves, line by line.

  A Python string is modelled as a \<^typ>\<open>string\<close>: a list of characters with code points
  below 256. Texts with other characters are outside the model; on them \<open>IGNORECASE\<close>,
  \<open>\d\<close> and \<open>\s\<close> accept further characters. Exceptions are values of the type
  \<open>error\<close>, and a function that can raise returns \<open>error + 'a\<close>.
\<close>

datatype error =
    IndexError
  | KeyError
  | ValueError
  | OverflowError
  | TypeError
  | AttributeError
  | ArgumentSyntaxError string

subsection \<open>Characters and strings\<close>

text \<open>\<open>str.lower\<close> on code points below 256: A-Z and the Latin-1 capitals move up by 32.\<close>

definition lower_char :: "char \<Rightarrow> char" where
  "lower_char c =
     (let n = (of_char c :: nat)
      in if (65 \<le> n \<and> n \<le> 90) \<or> (192 \<le> n \<and> n \<le> 222 \<and> n \<noteq> 215)
         then char_of (n + 32) else c)"

definition str_lower :: "string \<Rightarrow> string" where
  "str_lower s = map lower_char s"

text \<open>
  The character classes of the four patterns: \<open>\d\<close>, \<open>\s\<close> (Unicode white space, of
  which twelve code points lie below 256) and the bracket classes \<open>[-+]\<close> and \<open>[:.]\<close>.
\<close>

datatype cclass = Digit | Space | OneOf string

fun in_class :: "cclass \<Rightarrow> char \<Rightarrow> bool" where
  "in_class Digit c = (48 \<le> (of_char c :: nat) \<and> (of_char c :: nat) \<le> 57)"
| "in_class Space c =
     ((of_char c :: nat) \<in> {9, 10, 11, 12, 13, 28, 29, 30, 31, 32, 133, 160})"
| "in_class (OneOf cs) c = (c \<in> set cs)"

text \<open>
  \<open>int(v)\<close> and \<open>float(v)\<close> on the text of a capture group: an optional sign and decimal
  digits. The float is represented by the integer it denotes, which is exact for every
  number below \<open>2^53\<close>. Any other text is rejected with \<open>ValueError\<close>.
\<close>

definition digits_value :: "string \<Rightarrow> nat" where
  "digits_value s = foldl (\<lambda>n c. 10 * n + ((of_char c :: nat) - 48)) 0 s"

definition py_int :: "string \<Rightarrow> error + int" where
  "py_int v =
     (let body = (case v of [] \<Rightarrow> [] | c # cs \<Rightarrow> if c \<in> set ''-+'' then cs else v);
          sign = (case v of [] \<Rightarrow> 1 | c # cs \<Rightarrow> if c = CHR ''-'' then - 1 else (1 :: int))
      in if body \<noteq> [] \<and> list_all (in_class Digit) body
         then Inr (sign * int (digits_value body)) else Inl ValueError)"

definition py_float :: "string \<Rightarrow> error + int" where
  "py_float v = py_int v"

text \<open>\<open>str(n)\<close> of an integer, as the f-strings of \<open>pluralize\<close> render it.\<close>

fun str_nat :: "nat \<Rightarrow> string" where
  "str_nat n =
     (if n < 10 then [char_of (48 + n)] else str_nat (n div 10) @ [char_of (48 + n mod 10)])"

declare str_nat.simps [simp del]

definition str_int :: "int \<Rightarrow> string" where
  "str_int i = (if i < 0 then CHR ''-'' # str_nat (nat (- i)) else str_nat (nat i))"

fun join :: "string \<Rightarrow> string list \<Rightarrow> string" where
  "join sep [] = []"
| "join sep [x] = x"
| "join sep (x # xs) = x @ sep @ join sep xs"

subsection \<open>Regular expressions\<close>

text \<open>
  The patterns use literals, character classes, bounded greedy repetition of a class,
  sequence, alternation, greedy optional parts and named groups. \<open>rmatch\<close> is the
  backtracking matcher of \<open>re\<close>: it lists every way the pattern can match a prefix of
  the text, in the order in which the engine tries them, each with the text left over
  and the groups captured on the way. \<open>re_match\<close> is \<open>pattern.match(val, pos)\<close>: the
  first way, as the end offset and the captured groups.
\<close>

datatype regex =
    Empty
  | Lit string
  | Class cclass
  | Repeat cclass nat "nat option"
  | Then regex regex
  | Or regex regex
  | Optional regex
  | Group string regex

type_synonym groups = "(string \<times> string) list"

fun rmatch :: "bool \<Rightarrow> regex \<Rightarrow> string \<Rightarrow> groups \<Rightarrow> (string \<times> groups) list" where
  "rmatch ic Empty s g = [(s, g)]"
| "rmatch ic (Lit l) s g =
     (if length l \<le> length s \<and>
         (if ic then str_lower (take (length l) s) = str_lower l else take (length l) s = l)
      then [(drop (length l) s, g)] else [])"
| "rmatch ic (Class k) s g =
     (case s of [] \<Rightarrow> [] | c # cs \<Rightarrow> if in_class k c then [(cs, g)] else [])"
| "rmatch ic (Repeat k lo hi) s g =
     (let run = length (takeWhile (in_class k) s);
          most = (case hi of None \<Rightarrow> run | Some h \<Rightarrow> min h run)
      in map (\<lambda>n. (drop n s, g)) (rev [lo ..< Suc most]))"
| "rmatch ic (Then a b) s g =
     concat (map (\<lambda>(s', g'). rmatch ic b s' g') (rmatch ic a s g))"
| "rmatch ic (Or a b) s g = rmatch ic a s g @ rmatch ic b s g"
| "rmatch ic (Optional a) s g = rmatch ic a s g @ [(s, g)]"
| "rmatch ic (Group name a) s g =
     map (\<lambda>(s', g'). (s', (name, take (length s - length s') s) # g')) (rmatch ic a s g)"

definition re_match :: "bool \<Rightarrow> regex \<Rightarrow> string \<Rightarrow> nat \<Rightarrow> (nat \<times> groups) option" where
  "re_match ic r val pos =
     (case rmatch ic r (drop pos val) [] of
        [] \<Rightarrow> None
      | (rest, g) # _ \<Rightarrow> Some (length val - length rest, g))"

fun group_names :: "regex \<Rightarrow> string list" where
  "group_names (Then a b) = group_names a @ group_names b"
| "group_names (Or a b) = group_names a @ group_names b"
| "group_names (Optional a) = group_names a"
| "group_names (Group name a) = name # group_names a"
| "group_names _ = []"

fun seqs :: "regex list \<Rightarrow> regex" where
  "seqs [] = Empty"
| "seqs [r] = r"
| "seqs (r # rs) = Then r (seqs rs)"

text \<open>
  \<open>{k: conv(v) for k, v in found.groupdict().items() if v}\<close>: the groups of the pattern
  in their order, those that took part in the match with a non-empty text, converted.
\<close>

fun group_params ::
  "(string \<Rightarrow> error + int) \<Rightarrow> string list \<Rightarrow> groups \<Rightarrow> error + (string \<times> int) list" where
  "group_params conv [] g = Inr []"
| "group_params conv (k # ks) g =
     (case map_of g k of
        None \<Rightarrow> group_params conv ks g
      | Some v \<Rightarrow>
          if v = [] then group_params conv ks g
          else (case conv v of
                  Inl e \<Rightarrow> Inl e
                | Inr n \<Rightarrow>
                    (case group_params conv ks g of
                       Inl e \<Rightarrow> Inl e
                     | Inr ps \<Rightarrow> Inr ((k, n) # ps))))"

subsection \<open>The four patterns of the module\<close>

definition signed_number :: regex where
  "signed_number = Then (Optional (Class (OneOf ''-+''))) (Repeat Digit 1 None)"

definition delta_unit :: "string \<Rightarrow> regex \<Rightarrow> regex" where
  "delta_unit name word =
     Optional (seqs [Group name signed_number, Optional (Class Space), word,
                     Optional (Class Space)])"

definition timedelta_regex :: regex where
  "timedelta_regex = seqs
     [delta_unit ''years'' (Then (Lit ''y'') (Optional (Then (Lit ''ear'') (Optional (Lit ''s''))))),
      delta_unit ''months'' (Then (Lit ''month'') (Optional (Lit ''s''))),
      delta_unit ''weeks'' (Then (Lit ''w'') (Optional (Then (Lit ''eek'') (Optional (Lit ''s''))))),
      delta_unit ''days'' (Then (Lit ''d'') (Optional (Then (Lit ''ay'') (Optional (Lit ''s''))))),
      delta_unit ''hours'' (Then (Lit ''h'') (Optional (Then (Lit ''our'') (Optional (Lit ''s''))))),
      delta_unit ''minutes''
        (Then (Lit ''m'') (Optional (Then (Lit ''inute'') (Optional (Lit ''s''))))),
      delta_unit ''seconds''
        (Then (Lit ''s'') (Optional (Then (Lit ''econd'') (Optional (Lit ''s'')))))]"

definition date_regex :: regex where
  "date_regex = seqs
     [Group ''year'' (Repeat Digit 4 (Some 4)), Lit ''-'',
      Group ''month'' (Repeat Digit 1 (Some 2)), Lit ''-'',
      Group ''day'' (Repeat Digit 1 (Some 2))]"

definition day_regex :: regex where
  "day_regex =
     Or (Lit ''today'')
    (Or (Lit ''tomorrow'')
    (Or (Then (Lit ''mon'') (Optional (Lit ''day'')))
    (Or (Then (Lit ''tue'') (Then (Optional (Lit ''s'')) (Optional (Lit ''day''))))
    (Or (Then (Lit ''wed'') (Optional (Lit ''nesday'')))
    (Or (Then (Lit ''thu'') (Optional (Then (Lit ''rs'') (Optional (Lit ''day'')))))
    (Or (Then (Lit ''fri'') (Optional (Lit ''day'')))
    (Or (Then (Lit ''sat'') (Optional (Lit ''urday'')))
        (Then (Lit ''sun'') (Optional (Lit ''day''))))))))))"

definition time_regex :: regex where
  "time_regex = seqs
     [Optional (seqs [Class Space, Lit ''at'', Class Space]),
      Group ''hour'' (Repeat Digit 2 (Some 2)),
      Class (OneOf '':.''),
      Group ''minute'' (Repeat Digit 2 (Some 2)),
      Optional (Then (Class (OneOf '':.'')) (Group ''second'' (Repeat Digit 2 (Some 2))))]"

subsection \<open>Dates and times of Python's datetime\<close>

text \<open>
  A date is held as its proleptic Gregorian ordinal (\<open>date.toordinal()\<close>: day 1 is
  0001-01-01), from which year, month and day are computed as \<open>datetime\<close> does.
  \<open>tzinfo\<close> is the fixed offset attached to an aware datetime (seconds east of UTC and
  the zone's abbreviation); a naive datetime has none.
\<close>

record tzinfo =
  utcoffset :: int
  tzname :: string

record datetime =
  ordinal :: int
  hour :: int
  minute :: int
  second :: int
  microsecond :: int
  tzinfo :: "tzinfo option"

record timedelta =
  days :: int
  seconds :: int
  microseconds :: int

definition MINYEAR :: int where "MINYEAR = 1"
definition MAXYEAR :: int where "MAXYEAR = 9999"
definition MAXORDINAL :: int where "MAXORDINAL = 3652059"

definition is_leap :: "int \<Rightarrow> bool" where
  "is_leap y = (y mod 4 = 0 \<and> (y mod 100 \<noteq> 0 \<or> y mod 400 = 0))"

definition days_before_year :: "int \<Rightarrow> int" where
  "days_before_year y = (let p = y - 1 in p * 365 + p div 4 - p div 100 + p div 400)"

definition days_in_month :: "int \<Rightarrow> int \<Rightarrow> int" where
  "days_in_month y m =
     (if m = 2 then (if is_leap y then 29 else 28)
      else if m = 4 \<or> m = 6 \<or> m = 9 \<or> m = 11 then 30 else 31)"

definition days_before_month :: "int \<Rightarrow> int \<Rightarrow> int" where
  "days_before_month y m =
     [0, 31, 59, 90, 120, 151, 181, 212, 243, 273, 304, 334] ! nat (m - 1)
       + (if m > 2 \<and> is_leap y then 1 else 0)"

definition ymd2ord :: "int \<Rightarrow> int \<Rightarrow> int \<Rightarrow> int" where
  "ymd2ord y m d = days_before_year y + days_before_month y m + d"

lemma div_step:
  fixes y k :: int
  assumes "0 < k"
  shows "y div k - (y - 1) div k = (if k dvd y then 1 else 0)"
proof (cases "k dvd y")
  case True
  then obtain q where q: "y = k * q" by (auto simp: dvd_def)
  have e: "y - 1 = k * (q - 1) + (k - 1)" using q by (simp add: algebra_simps)
  have "(y - 1) div k = q - 1"
    by (rule int_div_pos_eq [OF e]) (use assms in simp_all)
  then show ?thesis using q assms True by simp
next
  case False
  define r where "r = y mod k"
  have "0 \<le> r" "r < k" "r \<noteq> 0" using False assms by (simp_all add: r_def mod_eq_0_iff_dvd)
  then have r: "0 \<le> r - 1" "r - 1 < k" by simp_all
  have e: "y - 1 = k * (y div k) + (r - 1)" by (simp add: r_def)
  have "(y - 1) div k = y div k"
    by (rule int_div_pos_eq [OF e]) (use r in simp_all)
  then show ?thesis using False by simp
qed

lemma year_length:
  "days_before_year (y + 1) = days_before_year y + (if is_leap y then 366 else 365)"
proof -
  have d4: "y div 4 = (y - 1) div 4 + (if 4 dvd y then 1 else 0)"
    using div_step [of 4 y] by simp
  have d100: "y div 100 = (y - 1) div 100 + (if 100 dvd y then 1 else 0)"
    using div_step [of 100 y] by simp
  have d400: "y div 400 = (y - 1) div 400 + (if 400 dvd y then 1 else 0)"
    using div_step [of 400 y] by simp
  have i1: "100 dvd y \<Longrightarrow> 4 dvd y" by (rule dvd_trans [of 4 100]) simp_all
  have i2: "400 dvd y \<Longrightarrow> 100 dvd y" by (rule dvd_trans [of 100 400]) simp_all
  have l: "is_leap y = (4 dvd y \<and> (\<not> 100 dvd y \<or> 400 dvd y))"
    by (simp add: is_leap_def mod_eq_0_iff_dvd)
  have "days_before_year (y + 1) = y * 365 + y div 4 - y div 100 + y div 400"
    by (simp add: days_before_year_def)
  also have "\<dots> = days_before_year y + 365 + (if 4 dvd y then 1 else 0)
      - (if 100 dvd y then 1 else 0) + (if 400 dvd y then 1 else 0)"
    unfolding days_before_year_def Let_def
    by (subst d4, subst d100, subst d400) (simp add: algebra_simps)
  also have "\<dots> = days_before_year y + (if is_leap y then 366 else 365)"
    using i1 i2 unfolding l by (cases "4 dvd y"; cases "100 dvd y"; cases "400 dvd y") simp_all
  finally show ?thesis .
qed

text \<open>
  The year of an ordinal \<open>n\<close> is the last year that starts before day \<open>n\<close>; the search
  starts from a year that is not later (no year has more than 366 days).
\<close>

function year_from :: "int \<Rightarrow> int \<Rightarrow> int" where
  "year_from n y = (if days_before_year (y + 1) < n then year_from n (y + 1) else y)"
  by pat_completeness auto
termination
proof (relation "measure (\<lambda>(n, y). nat (n - days_before_year (y + 1)))")
  show "wf (measure (\<lambda>(n, y). nat (n - days_before_year (y + 1))))"
    by simp
next
  fix n y :: int
  assume "days_before_year (y + 1) < n"
  moreover have "days_before_year (y + 1) < days_before_year (y + 1 + 1)"
    unfolding year_length [of "y + 1"] by (simp split: if_splits)
  ultimately show "((n, y + 1), (n, y)) \<in> measure (\<lambda>(n, y). nat (n - days_before_year (y + 1)))"
    by simp
qed

declare year_from.simps [simp del]

definition month_from :: "int \<Rightarrow> int \<Rightarrow> int" where
  "month_from y r =
     (case find (\<lambda>m. days_before_month y m < r) [12, 11, 10, 9, 8, 7, 6, 5, 4, 3, 2, 1] of
        Some m \<Rightarrow> m
      | None \<Rightarrow> 1)"

definition ord2ymd :: "int \<Rightarrow> int \<times> int \<times> int" where
  "ord2ymd n =
     (let y = year_from n ((n - 1) div 366 + 1);
          r = n - days_before_year y;
          m = month_from y r
      in (y, m, r - days_before_month y m))"

definition year :: "datetime \<Rightarrow> int" where
  "year dt = fst (ord2ymd (ordinal dt))"

definition month :: "datetime \<Rightarrow> int" where
  "month dt = fst (snd (ord2ymd (ordinal dt)))"

definition day :: "datetime \<Rightarrow> int" where
  "day dt = snd (snd (ord2ymd (ordinal dt)))"

text \<open>\<open>datetime.weekday()\<close>: Monday is 0 and Sunday is 6.\<close>

definition weekday :: "datetime \<Rightarrow> int" where
  "weekday dt = (ordinal dt + 6) mod 7"

text \<open>The constructor \<open>datetime(year, month, day, hour, minute, second, microsecond, tzinfo)\<close>.\<close>

definition mk_datetime ::
  "int \<Rightarrow> int \<Rightarrow> int \<Rightarrow> int \<Rightarrow> int \<Rightarrow> int \<Rightarrow> int \<Rightarrow> tzinfo option \<Rightarrow> datetime" where
  "mk_datetime y m d hh mm ss us tz =
     \<lparr>ordinal = ymd2ord y m d, hour = hh, minute = mm, second = ss, microsecond = us,
      tzinfo = tz\<rparr>"

definition valid_datetime :: "datetime \<Rightarrow> bool" where
  "valid_datetime dt =
     (1 \<le> ordinal dt \<and> ordinal dt \<le> MAXORDINAL \<and> 0 \<le> hour dt \<and> hour dt \<le> 23 \<and>
      0 \<le> minute dt \<and> minute dt \<le> 59 \<and> 0 \<le> second dt \<and> second dt \<le> 59 \<and>
      0 \<le> microsecond dt \<and> microsecond dt \<le> 999999)"

text \<open>
  \<open>dt.replace(year=, month=, day=, hour=, minute=, second=)\<close> with the constructor's
  range checks; an absent time field keeps its value. A year that does not fit a C
  \<open>int\<close> is refused with \<open>OverflowError\<close> before the ranges are looked at (the other
  arguments of the calls made here are small).
\<close>

definition replace ::
  "datetime \<Rightarrow> int \<Rightarrow> int \<Rightarrow> int \<Rightarrow> int option \<Rightarrow> int option \<Rightarrow> int option \<Rightarrow> error + datetime"
  where
  "replace dt y m d hh mm ss =
     (let h' = (case hh of None \<Rightarrow> hour dt | Some v \<Rightarrow> v);
          m' = (case mm of None \<Rightarrow> minute dt | Some v \<Rightarrow> v);
          s' = (case ss of None \<Rightarrow> second dt | Some v \<Rightarrow> v)
      in if y < - 2147483648 \<or> 2147483647 < y then Inl OverflowError
         else if MINYEAR \<le> y \<and> y \<le> MAXYEAR \<and> 1 \<le> m \<and> m \<le> 12 \<and>
            1 \<le> d \<and> d \<le> days_in_month y m \<and>
            0 \<le> h' \<and> h' \<le> 23 \<and> 0 \<le> m' \<and> m' \<le> 59 \<and> 0 \<le> s' \<and> s' \<le> 59
         then Inr (dt\<lparr>ordinal := ymd2ord y m d, hour := h', minute := m', second := s'\<rparr>)
         else Inl ValueError)"

text \<open>Microseconds since the start of day 0, and back; this is how durations are added.\<close>

definition to_us :: "datetime \<Rightarrow> int" where
  "to_us dt =
     (ordinal dt * 86400 + hour dt * 3600 + minute dt * 60 + second dt) * 1000000
       + microsecond dt"

definition of_us :: "int \<Rightarrow> tzinfo option \<Rightarrow> datetime" where
  "of_us u tz =
     \<lparr>ordinal = u div 86400000000, hour = u div 3600000000 mod 24,
      minute = u div 60000000 mod 60, second = u div 1000000 mod 60,
      microsecond = u mod 1000000, tzinfo = tz\<rparr>"

definition td_us :: "timedelta \<Rightarrow> int" where
  "td_us td = (days td * 86400 + seconds td) * 1000000 + microseconds td"

definition td_of_us :: "int \<Rightarrow> timedelta" where
  "td_of_us u =
     \<lparr>days = u div 86400000000, seconds = u div 1000000 mod 86400,
      microseconds = u mod 1000000\<rparr>"

text \<open>
  \<open>timedelta(days=, hours=, minutes=, seconds=)\<close>: the normalised duration, refused
  when it has more than 999999999 days.
\<close>

definition mk_timedelta :: "int \<Rightarrow> int \<Rightarrow> int \<Rightarrow> int \<Rightarrow> error + timedelta" where
  "mk_timedelta d h m s =
     (let td = td_of_us ((d * 86400 + h * 3600 + m * 60 + s) * 1000000)
      in if - 999999999 \<le> days td \<and> days td \<le> 999999999 then Inr td
         else Inl OverflowError)"

text \<open>\<open>dt + td\<close>: the result must be a date between 0001-01-01 and 9999-12-31.\<close>

definition datetime_add :: "datetime \<Rightarrow> timedelta \<Rightarrow> error + datetime" where
  "datetime_add dt td =
     (let r = of_us (to_us dt + td_us td) (tzinfo dt)
      in if 0 < ordinal r \<and> ordinal r \<le> MAXORDINAL then Inr r else Inl OverflowError)"

text \<open>
  \<open>a - b\<close>: both naive, or both aware (then the offsets are subtracted first);
  mixing the two raises \<open>TypeError\<close>.
\<close>

definition datetime_sub :: "datetime \<Rightarrow> datetime \<Rightarrow> error + timedelta" where
  "datetime_sub a b =
     (case (tzinfo a, tzinfo b) of
        (None, None) \<Rightarrow> Inr (td_of_us (to_us a - to_us b))
      | (Some za, Some zb) \<Rightarrow>
          Inr (td_of_us ((to_us a - utcoffset za * 1000000) - (to_us b - utcoffset zb * 1000000)))
      | _ \<Rightarrow> Inl TypeError)"

definition td_le :: "timedelta \<Rightarrow> timedelta \<Rightarrow> bool" where
  "td_le a b = (td_us a \<le> td_us b)"

text \<open>
  \<open>time.strftime("at %H:%M:%S %Z on %A, %B %-d %Y")\<close> in the C locale of glibc.
\<close>

definition pad2 :: "int \<Rightarrow> string" where
  "pad2 n = (if 0 \<le> n \<and> n < 10 then CHR ''0'' # str_int n else str_int n)"

definition day_name :: "int \<Rightarrow> string" where
  "day_name w =
     [''Monday'', ''Tuesday'', ''Wednesday'', ''Thursday'', ''Friday'', ''Saturday'',
      ''Sunday''] ! nat (w mod 7)"

definition month_name :: "int \<Rightarrow> string" where
  "month_name m =
     [''January'', ''February'', ''March'', ''April'', ''May'', ''June'', ''July'',
      ''August'', ''September'', ''October'', ''November'', ''December''] ! nat ((m - 1) mod 12)"

definition strftime_at :: "datetime \<Rightarrow> string" where
  "strftime_at dt =
     ''at '' @ pad2 (hour dt) @ '':'' @ pad2 (minute dt) @ '':'' @ pad2 (second dt) @ '' ''
       @ (case tzinfo dt of None \<Rightarrow> [] | Some z \<Rightarrow> tzname z)
       @ '' on '' @ day_name (weekday dt) @ '', '' @ month_name (month dt) @ '' ''
       @ str_int (day dt) @ '' '' @ str_int (year dt)"

subsection \<open>The relative delta of dateutil\<close>

text \<open>
  \<open>relativedelta(**params)\<close> keeps relative amounts (plural keywords) and absolute
  values (singular keywords, and the weekday). Its constructor folds weeks into days,
  looks the weekday up in a table of seven entries and normalises the amounts
  (\<open>_fix\<close>); \<open>dt + relativedelta\<close> first replaces the absolute fields, then adds the
  relative amounts, then moves forward to the requested weekday.
\<close>

type_synonym params = "(string \<times> int) list"

record relativedelta =
  rd_years :: int
  rd_months :: int
  rd_days :: int
  rd_hours :: int
  rd_minutes :: int
  rd_seconds :: int
  rd_year :: "int option"
  rd_month :: "int option"
  rd_day :: "int option"
  rd_weekday :: "int option"
  rd_hour :: "int option"
  rd_minute :: "int option"
  rd_second :: "int option"

definition kw :: "params \<Rightarrow> string \<Rightarrow> int" where
  "kw ps k = (case map_of ps k of None \<Rightarrow> 0 | Some v \<Rightarrow> v)"

text \<open>
  One step of \<open>_fix\<close>: an amount \<open>a\<close> beyond \<open>limit - 1\<close> in magnitude keeps its
  remainder (with its sign) and carries the quotient into the next unit \<open>b\<close>.
\<close>

definition carry :: "int \<Rightarrow> int \<Rightarrow> int \<Rightarrow> int \<times> int" where
  "carry limit a b =
     (if \<bar>a\<bar> > limit - 1
      then (let s = sgn a in ((a * s) mod limit * s, b + (a * s) div limit * s))
      else (a, b))"

definition relativedelta_init :: "params \<Rightarrow> error + relativedelta" where
  "relativedelta_init ps =
     (case (case map_of ps ''weekday'' of
              None \<Rightarrow> Inr None
            | Some w \<Rightarrow> if - 7 \<le> w \<and> w \<le> 6 then Inr (Some (w mod 7)) else Inl IndexError) of
        Inl e \<Rightarrow> Inl e
      | Inr wd \<Rightarrow>
          (let (seconds, minutes) = carry 60 (kw ps ''seconds'') (kw ps ''minutes'');
               (minutes, hours) = carry 60 minutes (kw ps ''hours'');
               (hours, days) = carry 24 hours (kw ps ''days'' + kw ps ''weeks'' * 7);
               (months, years) = carry 12 (kw ps ''months'') (kw ps ''years'')
           in Inr \<lparr>rd_years = years, rd_months = months, rd_days = days, rd_hours = hours,
                   rd_minutes = minutes, rd_seconds = seconds,
                   rd_year = map_of ps ''year'', rd_month = map_of ps ''month'',
                   rd_day = map_of ps ''day'', rd_weekday = wd,
                   rd_hour = map_of ps ''hour'', rd_minute = map_of ps ''minute'',
                   rd_second = map_of ps ''second''\<rparr>))"

text \<open>\<open>self.year or other.year\<close>: an absent or zero value falls back to the datetime's.\<close>

definition or_else :: "int option \<Rightarrow> int \<Rightarrow> int" where
  "or_else v d = (case v of None \<Rightarrow> d | Some x \<Rightarrow> if x = 0 then d else x)"

definition relativedelta_add :: "relativedelta \<Rightarrow> datetime \<Rightarrow> error + datetime" where
  "relativedelta_add rd other =
     (let y0 = or_else (rd_year rd) (year other) + rd_years rd;
          m0 = or_else (rd_month rd) (month other);
          (y, m) = (if rd_months rd \<noteq> 0
                    then (let m1 = m0 + rd_months rd
                          in if m1 > 12 then (y0 + 1, m1 - 12)
                             else if m1 < 1 then (y0 - 1, m1 + 12) else (y0, m1))
                    else (y0, m0));
          d = min (days_in_month y m) (or_else (rd_day rd) (day other))
      in case replace other y m d (rd_hour rd) (rd_minute rd) (rd_second rd) of
           Inl e \<Rightarrow> Inl e
         | Inr repl \<Rightarrow>
             (case mk_timedelta (rd_days rd) (rd_hours rd) (rd_minutes rd) (rd_seconds rd) of
                Inl e \<Rightarrow> Inl e
              | Inr td \<Rightarrow>
                  (case datetime_add repl td of
                     Inl e \<Rightarrow> Inl e
                   | Inr ret \<Rightarrow>
                       (case rd_weekday rd of
                          None \<Rightarrow> Inr ret
                        | Some wd \<Rightarrow>
                            datetime_add ret
                              \<lparr>days = (7 - weekday ret + wd) mod 7, seconds = 0,
                               microseconds = 0\<rparr>))))"

subsection \<open>The system clock and time zones\<close>

text \<open>
  A pytz time zone gives, for an instant in UTC, the offset and abbreviation in force.
  The system clock is a sequence of instants (naive datetimes in UTC): each call of
  \<open>datetime.now\<close> takes the next one, so the state threaded through a function is the
  number of readings taken so far. \<open>datetime.now()\<close> returns the reading as a naive
  datetime in the system's local zone, \<open>datetime.now(tz=tz)\<close> as an aware one in \<open>tz\<close>.
\<close>

type_synonym timezone = "datetime \<Rightarrow> tzinfo"

definition pytz_UTC :: timezone where
  "pytz_UTC = (\<lambda>t. \<lparr>utcoffset = 0, tzname = ''UTC''\<rparr>)"

record env =
  clock :: "nat \<Rightarrow> datetime"
  local_zone :: timezone

definition datetime_now :: "env \<Rightarrow> timezone option \<Rightarrow> nat \<Rightarrow> datetime \<times> nat" where
  "datetime_now e tz k =
     (let t = clock e k
      in case tz of
           None \<Rightarrow> (of_us (to_us t + utcoffset (local_zone e t) * 1000000) None, Suc k)
         | Some z \<Rightarrow> (of_us (to_us t + utcoffset (z t) * 1000000) (Some (z t)), Suc k))"

subsection \<open>DateArgument.match\<close>

text \<open>
  The method is one function in the source; its blocks are separate definitions here.
  \<open>{**params, **fields}\<close> is the update of \<open>params\<close> by each field in turn.
\<close>

definition dict_merge :: "params \<Rightarrow> params \<Rightarrow> params" where
  "dict_merge ps qs = foldl (\<lambda>acc (k, v). AList.update k v acc) ps qs"

text \<open>
  Lines 82 to 86, after \<open>day_regex\<close> has matched up to \<open>day_end\<close>: the dictionary
  display evaluates \<open>datetime.now()\<close> twice, then the first three characters of the
  input, in lower case, are looked up in it.
\<close>

definition weekday_table :: "datetime \<Rightarrow> datetime \<Rightarrow> (string \<times> int) list" where
  "weekday_table tod tom =
     [(''tod'', weekday tod), (''tom'', weekday tom + 1),
      (''mon'', 0), (''tue'', 1), (''wed'', 2), (''thu'', 3),
      (''fri'', 4), (''sat'', 5), (''sun'', 6)]"

definition weekday_branch :: "env \<Rightarrow> string \<Rightarrow> nat \<Rightarrow> nat \<Rightarrow> (error + nat \<times> params) \<times> nat"
  where
  "weekday_branch e val day_end k =
     (let (tod, k1) = datetime_now e None k;
          (tom, k2) = datetime_now e None k1
      in case map_of (weekday_table tod tom) (str_lower (take 3 val)) of
           None \<Rightarrow> (Inl KeyError, k2)
         | Some w \<Rightarrow> (Inr (day_end, [(''weekday'', w)]), k2))"

text \<open>
  Lines 79 to 91, the branch taken when the delta pattern consumed nothing: the weekday
  keyword, else the ISO date. The date branch builds its fields from the groups of
  \<open>found_delta\<close> (line 91), which is what the source does.
\<close>

definition day_or_date ::
  "env \<Rightarrow> string \<Rightarrow> groups \<Rightarrow> nat \<Rightarrow> (error + nat \<times> params) \<times> nat" where
  "day_or_date e val delta_groups k =
     (case re_match True day_regex val 0 of
        Some (day_end, day_groups) \<Rightarrow> weekday_branch e val day_end k
      | None \<Rightarrow>
          (case re_match False date_regex val 0 of
             Some (date_end, date_groups) \<Rightarrow>
               (case group_params py_int (group_names timedelta_regex) delta_groups of
                  Inl err \<Rightarrow> (Inl err, k)
                | Inr params \<Rightarrow> (Inr (date_end, params), k))
           | None \<Rightarrow> (Inr (0, []), k)))"

text \<open>Lines 93 to 99: the clock time, matched at the offset reached so far.\<close>

definition time_step :: "string \<Rightarrow> nat \<Rightarrow> params \<Rightarrow> error + nat \<times> params" where
  "time_step val end params =
     (case re_match True time_regex val end of
        Some (time_end, time_groups) \<Rightarrow>
          (case group_params py_int (group_names time_regex) time_groups of
             Inl err \<Rightarrow> Inl err
           | Inr time_fields \<Rightarrow> Inr (time_end, dict_merge params time_fields))
      | None \<Rightarrow> Inr (end, params))"

text \<open>
  Lines 73 to 99: the end offset and the field map \<open>params\<close>. \<open>found_delta.end()\<close> is
  called on the match without a test for \<open>None\<close>. The clock-time step stands inside the
  \<open>else\<close> branch of the delta test.
\<close>

definition match_params :: "env \<Rightarrow> string \<Rightarrow> nat \<Rightarrow> (error + nat \<times> params) \<times> nat" where
  "match_params e val k =
     (case re_match True timedelta_regex val 0 of
        None \<Rightarrow> (Inl AttributeError, k)
      | Some (delta_end, delta_groups) \<Rightarrow>
          if delta_end > 0 then
            (case group_params py_float (group_names timedelta_regex) delta_groups of
               Inl err \<Rightarrow> (Inl err, k)
             | Inr params \<Rightarrow> (Inr (delta_end, params), k))
          else
            (case day_or_date e val delta_groups k of
               (Inl err, k') \<Rightarrow> (Inl err, k')
             | (Inr (end, params), k') \<Rightarrow> (time_step val end params, k')))"

text \<open>
  The whole method. \<open>inst\<close> is the time zone that \<open>instance.db.get_timezone(evt.sender)\<close>
  returns, or \<open>None\<close> when the method is called without an instance (then \<open>tz\<close> is UTC).
  The result is the text after the consumed prefix and the timestamp, or \<open>None\<close> when
  the field map is empty; the clock is read for the timestamp only in the first case.
\<close>

definition DateArgument_match ::
  "env \<Rightarrow> timezone option \<Rightarrow> string \<Rightarrow> nat \<Rightarrow> (error + string \<times> datetime option) \<times> nat"
  where
  "DateArgument_match e inst val k =
     (let tz = (case inst of None \<Rightarrow> pytz_UTC | Some z \<Rightarrow> z)
      in case match_params e val k of
           (Inl err, k') \<Rightarrow> (Inl err, k')
         | (Inr (end, params), k') \<Rightarrow>
             if length params > 0 then
               (let (now, k'') = datetime_now e (Some tz) k'
                in case relativedelta_init params of
                     Inl err \<Rightarrow> (Inl err, k'')
                   | Inr rd \<Rightarrow>
                       (case relativedelta_add rd now of
                          Inl err \<Rightarrow> (Inl err, k'')
                        | Inr t \<Rightarrow> (Inr (drop end val, Some t), k'')))
             else (Inr (drop end val, None), k'))"

subsection \<open>parse_timezone, pluralize and format_time\<close>

text \<open>
  \<open>pytz.timezone(val)\<close> is a lookup in the time zone database, which is a parameter:
  \<open>db val = None\<close> stands for \<open>UnknownTimeZoneError\<close>.
\<close>

definition parse_timezone ::
  "(string \<Rightarrow> timezone option) \<Rightarrow> string \<Rightarrow> error + timezone option" where
  "parse_timezone db val =
     (if val = [] then Inr None
      else (case db val of
              Some z \<Rightarrow> Inr (Some z)
            | None \<Rightarrow> Inl (ArgumentSyntaxError (val @ '' is not a valid time zone.''))))"

definition pluralize :: "int \<Rightarrow> string \<Rightarrow> string" where
  "pluralize val unit =
     (if val = 1 then str_int val @ '' '' @ unit else str_int val @ '' '' @ unit @ ''s'')"

text \<open>
  \<open>format_time\<close> reads the clock once, in UTC, and drops the microseconds. The last
  line of the relative branch indexes \<open>parts[-1]\<close>, which raises \<open>IndexError\<close> on an
  empty list.
\<close>

definition format_time :: "env \<Rightarrow> datetime \<Rightarrow> nat \<Rightarrow> (error + string) \<times> nat" where
  "format_time e time k =
     (let (now0, k') = datetime_now e (Some pytz_UTC) k;
          now = now0\<lparr>microsecond := 0\<rparr>
      in case datetime_sub time now of
           Inl err \<Rightarrow> (Inl err, k')
         | Inr delta \<Rightarrow>
             if td_le delta \<lparr>days = 7, seconds = 0, microseconds = 0\<rparr> then
               (let parts = [];
                    parts = (if days delta > 0 then parts @ [pluralize (days delta) ''day'']
                             else parts);
                    (hours, seconds) = (seconds delta div 60, seconds delta mod 60);
                    (hours, minutes) = (hours div 60, hours mod 60);
                    parts = (if hours > 0 then parts @ [pluralize hours ''hour''] else parts);
                    parts = (if minutes > 0 then parts @ [pluralize minutes ''minute'']
                             else parts);
                    parts = (if seconds > 0 then parts @ [pluralize seconds ''second'']
                             else parts)
                in if length parts = 1 then (Inr (''in '' @ parts ! 0), k')
                   else if parts = [] then (Inl IndexError, k')
                   else (Inr (''in '' @ join '', '' (butlast parts) @ '' and '' @ last parts),
                         k'))
             else (Inr (strftime_at time), k'))"

subsection \<open>Concrete environments for the examples\<close>

text \<open>
  \<open>env_at t\<close> is a system in the UTC zone whose clock stands at the instant \<open>t\<close>;
  \<open>env_ticking a b\<close> is one whose clock shows \<open>a\<close> at the first two readings and \<open>b\<close>
  from the third on. \<open>example_db\<close> is a time zone database that knows only UTC.
\<close>

definition utc_info :: tzinfo where
  "utc_info = \<lparr>utcoffset = 0, tzname = ''UTC''\<rparr>"

definition env_at :: "datetime \<Rightarrow> env" where
  "env_at t = \<lparr>clock = (\<lambda>k. t), local_zone = pytz_UTC\<rparr>"

definition env_ticking :: "datetime \<Rightarrow> datetime \<Rightarrow> env" where
  "env_ticking a b = \<lparr>clock = (\<lambda>k. if k < 2 then a else b), local_zone = pytz_UTC\<rparr>"

definition example_db :: "string \<Rightarrow> timezone option" where
  "example_db name = (if name = ''UTC'' then Some pytz_UTC else None)"

subsection \<open>The relative rendering as the specification words it\<close>

text \<open>
  The specification of the formatter, for a difference of \<open>d\<close> whole seconds: the whole
  days, then the remaining seconds of the day split into hours, minutes and seconds;
  every non-zero unit gives a clause, the number followed by the unit's name, which
  takes an \<open>s\<close> unless the number is one; one clause is rendered \<open>in X\<close>, several as
  \<open>in A, B, ... and Z\<close>. These definitions follow the specification and use nothing of
  the code: neither \<open>pluralize\<close> nor the joining of \<open>format_time\<close>, which is compared
  with them below.
\<close>

definition spec_units :: "int \<Rightarrow> (int \<times> string) list" where
  "spec_units d =
     (let whole_days = d div 86400; rest = d mod 86400
      in [(whole_days, ''day''), (rest div 3600, ''hour''), (rest mod 3600 div 60, ''minute''),
          (rest mod 3600 mod 60, ''second'')])"

definition spec_clause :: "int \<Rightarrow> string \<Rightarrow> string" where
  "spec_clause n name = str_int n @ '' '' @ name @ (if n = 1 then [] else ''s'')"

definition spec_clauses :: "int \<Rightarrow> string list" where
  "spec_clauses d = map (\<lambda>(n, u). spec_clause n u) (filter (\<lambda>(n, u). n \<noteq> 0) (spec_units d))"

fun spec_comma_list :: "string list \<Rightarrow> string" where
  "spec_comma_list [] = []"
| "spec_comma_list [z] = z"
| "spec_comma_list [a, z] = a @ '' and '' @ z"
| "spec_comma_list (a # b # c # cs) = a @ '', '' @ spec_comma_list (b # c # cs)"

definition spec_render :: "string list \<Rightarrow> string" where
  "spec_render cs = ''in '' @ spec_comma_list cs"

subsection \<open>Shapes of patterns\<close>

text \<open>
  Properties of a pattern that can be read off its syntax; the facts about the four
  patterns are derived from them. \<open>wf_groups\<close>: every group holds a signed number or
  at least one digit, so that its text is a number for \<open>int\<close> and \<open>float\<close>
  (\<open>numeric_groups\<close>). \<open>always\<close>: the pattern matches at every position, possibly the
  empty text. \<open>consumes\<close>: every match takes at least one character. \<open>sure_groups\<close>:
  the groups that take part in every match.
\<close>

fun wf_groups :: "regex \<Rightarrow> bool" where
  "wf_groups (Then a b) = (wf_groups a \<and> wf_groups b)"
| "wf_groups (Or a b) = (wf_groups a \<and> wf_groups b)"
| "wf_groups (Optional a) = wf_groups a"
| "wf_groups (Group name a) =
     (a = signed_number \<or> (case a of Repeat k lo hi \<Rightarrow> k = Digit \<and> 1 \<le> lo | _ \<Rightarrow> False))"
| "wf_groups _ = True"

definition numeric_groups :: "groups \<Rightarrow> bool" where
  "numeric_groups g = list_all (\<lambda>(k, v). \<not> isl (py_int v)) g"

fun always :: "regex \<Rightarrow> bool" where
  "always Empty = True"
| "always (Optional a) = True"
| "always (Then a b) = (always a \<and> always b)"
| "always (Or a b) = (always a \<or> always b)"
| "always (Group name a) = always a"
| "always (Repeat k lo hi) = (lo = 0)"
| "always (Lit l) = (l = [])"
| "always (Class k) = False"

fun consumes :: "regex \<Rightarrow> bool" where
  "consumes Empty = False"
| "consumes (Lit l) = (l \<noteq> [])"
| "consumes (Class k) = True"
| "consumes (Repeat k lo hi) = (1 \<le> lo)"
| "consumes (Then a b) = (consumes a \<or> consumes b)"
| "consumes (Or a b) = (consumes a \<and> consumes b)"
| "consumes (Optional a) = False"
| "consumes (Group name a) = consumes a"

fun sure_groups :: "regex \<Rightarrow> string list" where
  "sure_groups (Then a b) = sure_groups a @ sure_groups b"
| "sure_groups (Group name a) = name # sure_groups a"
| "sure_groups _ = []"

section \<open>Properties\<close>

subsection \<open>Basic facts about the library model\<close>

lemma tzinfo_of_us [simp]: "tzinfo (of_us u z) = z"
  by (simp add: of_us_def)

lemma td_us_of_us [simp]: "td_us (td_of_us u) = u"
proof -
  define q where "q = u div 1000000"
  have a: "u div 86400000000 = q div 86400"
    using zdiv_zmult2_eq [of 86400 u 1000000] by (simp add: q_def)
  have b: "q div 86400 * 86400 + q mod 86400 = q" by simp
  have c: "q * 1000000 + u mod 1000000 = u" by (simp add: q_def)
  show ?thesis
    unfolding td_us_def td_of_us_def using a b c by (simp add: q_def [symmetric])
qed

lemma datetime_sub_normal:
  "datetime_sub a b = Inr delta \<Longrightarrow> delta = td_of_us (td_us delta)"
  by (auto simp: datetime_sub_def split: option.splits)

lemma spec_units_code:
  "spec_units d =
     [(d div 86400, ''day''), (d mod 86400 div 60 div 60, ''hour''),
      (d mod 86400 div 60 mod 60, ''minute''), (d mod 86400 mod 60, ''second'')]"
proof -
  define s where "s = d mod 86400"
  have h: "s div 3600 = s div 60 div 60"
    using zdiv_zmult2_eq [of 60 s 60] by simp
  have m: "s mod 3600 div 60 = s div 60 mod 60"
    using zmod_zmult2_eq [of 60 s 60] by simp
  have c: "s mod 3600 mod 60 = s mod 60"
    by (rule mod_mod_cancel) simp
  show ?thesis
    unfolding spec_units_def Let_def s_def [symmetric] h m c by simp
qed

subsection \<open>parse_timezone\<close>

text \<open>
  Claim C9. \<open>parse_timezone\<close> of the empty string returns \<open>None\<close> without an error; of
  a non-empty name that the time zone database does not know it raises
  \<open>ArgumentSyntaxError\<close> with a message that starts with the offending name; of a known
  name it returns the time zone of the database.
\<close>

theorem parse_timezone_outcomes:
  "parse_timezone db [] = Inr None \<and>
   (val \<noteq> [] \<and> db val = None \<longrightarrow>
      parse_timezone db val = Inl (ArgumentSyntaxError (val @ '' is not a valid time zone.''))) \<and>
   (val \<noteq> [] \<and> db val = Some z \<longrightarrow> parse_timezone db val = Inr (Some z))"
  by (simp add: parse_timezone_def)

theorem parse_timezone_outcomes_witness:
  "parse_timezone example_db [] = Inr None \<and>
   parse_timezone example_db ''Not/AZone'' =
     Inl (ArgumentSyntaxError ''Not/AZone is not a valid time zone.'') \<and>
   parse_timezone example_db ''UTC'' = Inr (Some pytz_UTC)"
  using parse_timezone_outcomes [of example_db "''Not/AZone''" pytz_UTC]
        parse_timezone_outcomes [of example_db "''UTC''" pytz_UTC]
  by (simp add: example_db_def)

subsection \<open>format_time\<close>

text \<open>
  Claim C4. When the target equals the current moment (cut to whole seconds, as
  \<open>format_time\<close> cuts it), no unit is non-zero and the list of clauses is empty. The
  claim expects the string \<open>"in "\<close>; the function raises \<open>IndexError\<close> instead, at
  \<open>parts[-1]\<close>.
\<close>

theorem format_time_zero_difference:
  "format_time e ((fst (datetime_now e (Some pytz_UTC) k))\<lparr>microsecond := 0\<rparr>) k
     = (Inl IndexError, Suc k)"
  by (simp add: format_time_def datetime_now_def datetime_sub_def td_of_us_def td_le_def
      td_us_def Let_def pytz_UTC_def split: prod.splits)

text \<open>
  Claim C7. For a target that lies \<open>d\<close> whole seconds after the current moment, with
  \<open>0 < d\<close> and \<open>d\<close> at most 7 days, \<open>format_time\<close> returns the rendering of the
  specification: whole days, then hours, minutes and seconds of the rest of the day,
  one pluralized clause per non-zero unit (\<open>1 day\<close>, \<open>2 days\<close>), \<open>in X\<close> for one clause
  and a comma list ending in \<open>and\<close> for several. The rendering of the specification is
  defined without \<open>pluralize\<close> and without the joining of \<open>format_time\<close>. The witness
  holds the example of the specification, 90 seconds, and a difference with four
  clauses, one second less than 7 days.
\<close>

theorem format_time_relative:
  assumes sub: "datetime_sub time ((fst (datetime_now e (Some pytz_UTC) k))\<lparr>microsecond := 0\<rparr>)
                  = Inr delta"
    and d: "td_us delta = d * 1000000" "0 < d" "d \<le> 604800"
  shows "format_time e time k = (Inr (spec_render (spec_clauses d)), Suc k) \<and>
         pluralize 1 ''day'' = ''1 day'' \<and> pluralize 2 ''day'' = ''2 days''"
proof -
  have plural: "pluralize 1 ''day'' = ''1 day''" "pluralize 2 ''day'' = ''2 days''"
    by code_simp+
  have clause: "\<And>n u. pluralize n u = spec_clause n u"
    by (simp add: pluralize_def spec_clause_def)
  have delta: "delta = td_of_us (d * 1000000)"
    using datetime_sub_normal [OF sub] d(1) by simp
  define D where "D = d div 86400"
  define S where "S = d mod 86400"
  define H where "H = S div 60 div 60"
  define M where "M = S div 60 mod 60"
  define C where "C = S mod 60"
  have days: "days delta = D" and secs: "seconds delta = S"
    by (simp_all add: delta td_of_us_def D_def S_def)
  have le: "td_le delta \<lparr>days = 7, seconds = 0, microseconds = 0\<rparr>"
    using d by (simp add: td_le_def td_us_def)
  have nonneg: "0 \<le> D" "0 \<le> H" "0 \<le> M" "0 \<le> C"
    using d(2) by (simp_all add: D_def H_def M_def C_def S_def pos_imp_zdiv_nonneg_iff)
  have sum: "d = D * 86400 + S" "S = (H * 60 + M) * 60 + C"
    by (simp_all add: D_def S_def H_def M_def C_def)
  have some: "D \<noteq> 0 \<or> H \<noteq> 0 \<or> M \<noteq> 0 \<or> C \<noteq> 0"
    using sum d(2) by auto
  have pos: "0 < D \<longleftrightarrow> D \<noteq> 0" "0 < H \<longleftrightarrow> H \<noteq> 0" "0 < M \<longleftrightarrow> M \<noteq> 0" "0 < C \<longleftrightarrow> C \<noteq> 0"
    using nonneg by auto
  have units: "spec_units d = [(D, ''day''), (H, ''hour''), (M, ''minute''), (C, ''second'')]"
    by (simp add: spec_units_code D_def S_def H_def M_def C_def)
  have fmt: "format_time e time k =
      (let parts = (if D \<noteq> 0 then [pluralize D ''day''] else []);
           parts = (if H \<noteq> 0 then parts @ [pluralize H ''hour''] else parts);
           parts = (if M \<noteq> 0 then parts @ [pluralize M ''minute''] else parts);
           parts = (if C \<noteq> 0 then parts @ [pluralize C ''second''] else parts)
       in if length parts = 1 then (Inr (''in '' @ parts ! 0), Suc k)
          else if parts = [] then (Inl IndexError, Suc k)
          else (Inr (''in '' @ join '', '' (butlast parts) @ '' and '' @ last parts), Suc k))"
    using sub le
    by (simp add: format_time_def datetime_now_def Let_def days secs pos
        H_def [symmetric] M_def [symmetric] C_def [symmetric] split: prod.splits)
  have "format_time e time k = (Inr (spec_render (spec_clauses d)), Suc k)"
    unfolding fmt spec_clauses_def units spec_render_def Let_def clause
    using some by (cases "D = 0"; cases "H = 0"; cases "M = 0"; cases "C = 0") simp_all
  then show ?thesis using plural by simp
qed

theorem format_time_relative_witness:
  "datetime_sub (mk_datetime 2026 11 4 12 36 26 0 (Some utc_info))
     ((fst (datetime_now (env_at (mk_datetime 2026 11 4 12 34 56 789 None)) (Some pytz_UTC) 0))
        \<lparr>microsecond := 0\<rparr>)
     = Inr \<lparr>days = 0, seconds = 90, microseconds = 0\<rparr> \<and>
   format_time (env_at (mk_datetime 2026 11 4 12 34 56 789 None))
     (mk_datetime 2026 11 4 12 36 26 0 (Some utc_info)) 0
     = (Inr ''in 1 minute and 30 seconds'', 1) \<and>
   datetime_sub (mk_datetime 2026 11 11 12 34 55 0 (Some utc_info))
     ((fst (datetime_now (env_at (mk_datetime 2026 11 4 12 34 56 789 None)) (Some pytz_UTC) 0))
        \<lparr>microsecond := 0\<rparr>)
     = Inr \<lparr>days = 6, seconds = 86399, microseconds = 0\<rparr> \<and>
   format_time (env_at (mk_datetime 2026 11 4 12 34 56 789 None))
     (mk_datetime 2026 11 11 12 34 55 0 (Some utc_info)) 0
     = (Inr ''in 6 days, 23 hours, 59 minutes and 59 seconds'', 1) \<and>
   format_time (env_at (mk_datetime 2026 11 4 12 34 56 789 None))
     (mk_datetime 2026 11 5 13 34 56 0 (Some utc_info)) 0
     = (Inr ''in 1 day and 1 hour'', 1)"
proof -
  have sub: "datetime_sub (mk_datetime 2026 11 4 12 36 26 0 (Some utc_info))
     ((fst (datetime_now (env_at (mk_datetime 2026 11 4 12 34 56 789 None)) (Some pytz_UTC) 0))
        \<lparr>microsecond := 0\<rparr>)
     = Inr \<lparr>days = 0, seconds = 90, microseconds = 0\<rparr>"
    by code_simp
  have us: "td_us \<lparr>days = 0, seconds = 90, microseconds = 0\<rparr> = 90 * 1000000"
    by (simp add: td_us_def)
  have r: "spec_render (spec_clauses 90) = ''in 1 minute and 30 seconds''"
    by code_simp
  have sub4: "datetime_sub (mk_datetime 2026 11 11 12 34 55 0 (Some utc_info))
     ((fst (datetime_now (env_at (mk_datetime 2026 11 4 12 34 56 789 None)) (Some pytz_UTC) 0))
        \<lparr>microsecond := 0\<rparr>)
     = Inr \<lparr>days = 6, seconds = 86399, microseconds = 0\<rparr>"
    by code_simp
  have us4: "td_us \<lparr>days = 6, seconds = 86399, microseconds = 0\<rparr> = 604799 * 1000000"
    by (simp add: td_us_def)
  have r4: "spec_render (spec_clauses 604799) = ''in 6 days, 23 hours, 59 minutes and 59 seconds''"
    by code_simp
  have sub2: "datetime_sub (mk_datetime 2026 11 5 13 34 56 0 (Some utc_info))
     ((fst (datetime_now (env_at (mk_datetime 2026 11 4 12 34 56 789 None)) (Some pytz_UTC) 0))
        \<lparr>microsecond := 0\<rparr>)
     = Inr \<lparr>days = 1, seconds = 3600, microseconds = 0\<rparr>"
    by code_simp
  have us2: "td_us \<lparr>days = 1, seconds = 3600, microseconds = 0\<rparr> = 90000 * 1000000"
    by (simp add: td_us_def)
  have r2: "spec_render (spec_clauses 90000) = ''in 1 day and 1 hour''"
    by code_simp
  show ?thesis
    using format_time_relative [OF sub us] format_time_relative [OF sub4 us4]
      format_time_relative [OF sub2 us2] r r4 r2 sub sub4
    by simp
qed

subsection \<open>DateArgument.match\<close>

text \<open>
  Claim C5. The claim says that a result without a timestamp leaves the whole input
  as remaining text. On an ISO date that no clock time follows, the date branch takes
  its fields from the (empty) match of the delta pattern, so the field map stays empty
  although the date has been consumed: the timestamp is \<open>None\<close> and the date is cut
  off the text.
\<close>

theorem date_without_time_gives_none:
  "DateArgument_match e inst ''2024-05-01 buy milk'' k = (Inr ('' buy milk'', None), k)"
  by (simp add: DateArgument_match_def match_params_def day_or_date_def time_step_def
      weekday_branch_def weekday_table_def re_match_def timedelta_regex_def delta_unit_def signed_number_def day_regex_def
      date_regex_def time_regex_def str_lower_def lower_char_def Let_def)

subsection \<open>The clock readings of a call\<close>

lemma snd_datetime_now [simp]: "snd (datetime_now e tz k) = Suc k"
  by (cases tz) (simp_all add: datetime_now_def Let_def)

lemma datetime_now_tz:
  "clock e k = clock e' k \<Longrightarrow> datetime_now e (Some z) k = datetime_now e' (Some z) k"
  by (simp add: datetime_now_def Let_def)

lemma format_time_one_reading:
  "clock e k = clock e' k \<Longrightarrow> format_time e t k = format_time e' t k"
  by (simp add: format_time_def datetime_now_def)

lemma snd_format_time: "snd (format_time e t k) = Suc k"
  by (simp add: format_time_def Let_def split_def split: sum.splits)

lemma match_params_without_keyword:
  assumes "re_match True day_regex val 0 = None"
  shows "match_params e val k = match_params e' val k" and "snd (match_params e val k) = k"
  using assms
  by (simp_all add: match_params_def day_or_date_def split: option.splits sum.splits prod.splits)

lemma match_one_reading_without_keyword:
  assumes "re_match True day_regex val 0 = None" and "clock e k = clock e' k"
  shows "DateArgument_match e inst val k = DateArgument_match e' inst val k"
    and "snd (DateArgument_match e inst val k) \<le> Suc k"
proof -
  obtain r where m: "match_params e' val k = (r, k)"
    using match_params_without_keyword(2) [OF assms(1), of e' k]
    by (cases "match_params e' val k") simp
  have m': "match_params e val k = (r, k)"
    using match_params_without_keyword(1) [OF assms(1), of e k e'] m by simp
  have now: "\<And>z. datetime_now e (Some z) k = datetime_now e' (Some z) k"
    by (rule datetime_now_tz [OF assms(2)])
  show "DateArgument_match e inst val k = DateArgument_match e' inst val k"
    unfolding DateArgument_match_def m m' Let_def
    by (cases r) (simp_all add: now split: prod.splits)
  show "snd (DateArgument_match e inst val k) \<le> Suc k"
    unfolding DateArgument_match_def m' Let_def
    by (cases r) (simp_all add: split_def split: sum.splits)
qed

lemma snd_weekday_branch [simp]: "snd (weekday_branch e val n k) = Suc (Suc k)"
  by (simp add: weekday_branch_def Let_def split_def split: option.splits)

lemma match_params_with_keyword:
  assumes "re_match True timedelta_regex val 0 = Some (0, g)"
    and "re_match True day_regex val 0 = Some (d, dg)"
  shows "snd (match_params e val k) = Suc (Suc k)"
proof -
  obtain r k' where w: "weekday_branch e val d k = (r, k')"
    by (cases "weekday_branch e val d k")
  have "k' = Suc (Suc k)" using snd_weekday_branch [of e val d k] w by simp
  then show ?thesis
    using assms w by (cases r) (auto simp: match_params_def day_or_date_def)
qed

lemma match_params_today:
  "match_params e ''today'' k =
     (Inr (5, [(''weekday'', weekday (fst (datetime_now e None k)))]), Suc (Suc k))"
  by (simp add: match_params_def day_or_date_def time_step_def weekday_branch_def
      weekday_table_def re_match_def timedelta_regex_def delta_unit_def signed_number_def
      day_regex_def date_regex_def time_regex_def str_lower_def lower_char_def Let_def
      split_def datetime_now_def dict_merge_def)

lemma relativedelta_init_weekday:
  "- 7 \<le> w \<Longrightarrow> w \<le> 6 \<Longrightarrow>
   relativedelta_init [(''weekday'', w)] =
     Inr \<lparr>rd_years = 0, rd_months = 0, rd_days = 0, rd_hours = 0, rd_minutes = 0,
          rd_seconds = 0, rd_year = None, rd_month = None, rd_day = None,
          rd_weekday = Some (w mod 7), rd_hour = None, rd_minute = None, rd_second = None\<rparr>"
  by (simp add: relativedelta_init_def kw_def carry_def)

text \<open>
  Claim C10. The claim says that every step of a call observes the same current time.
  \<open>format_time\<close> reads the clock once, and so does \<open>DateArgument.match\<close> when no weekday
  keyword matched (the lemmas above). After a weekday keyword the method reads the clock
  three times: line 84 calls \<open>datetime.now()\<close> twice for the weekday table and line 101
  calls \<open>datetime.now(tz=tz)\<close> for the base timestamp. When midnight passes between the
  readings the steps disagree: \<open>today\<close>, parsed while Sunday 2026-11-08 ends, resolves
  the weekday on Sunday and takes the base timestamp on Monday, and returns the Sunday
  of the next week, 2026-11-15. A run that starts at the same instant and sees it at
  every reading returns 2026-11-08.
\<close>

theorem today_across_midnight:
  "clock (env_ticking (mk_datetime 2026 11 8 23 59 59 999999 None)
                      (mk_datetime 2026 11 9 0 0 0 1 None)) 0
     = clock (env_at (mk_datetime 2026 11 8 23 59 59 999999 None)) 0 \<and>
   DateArgument_match
       (env_ticking (mk_datetime 2026 11 8 23 59 59 999999 None)
                    (mk_datetime 2026 11 9 0 0 0 1 None)) None ''today'' 0
     = (Inr ([], Some (mk_datetime 2026 11 15 0 0 0 1 (Some utc_info))), 3) \<and>
   DateArgument_match (env_at (mk_datetime 2026 11 8 23 59 59 999999 None)) None ''today'' 0
     = (Inr ([], Some (mk_datetime 2026 11 8 23 59 59 999999 (Some utc_info))), 3)"
proof -
  let ?A = "mk_datetime 2026 11 8 23 59 59 999999 None"
  let ?B = "mk_datetime 2026 11 9 0 0 0 1 None"
  let ?rd = "\<lparr>rd_years = 0, rd_months = 0, rd_days = 0, rd_hours = 0, rd_minutes = 0,
          rd_seconds = 0, rd_year = None, rd_month = None, rd_day = None,
          rd_weekday = Some 6, rd_hour = None, rd_minute = None, rd_second = None\<rparr>"
  have w1: "weekday (fst (datetime_now (env_ticking ?A ?B) None 0)) = 6"
    by code_simp
  have w2: "weekday (fst (datetime_now (env_at ?A) None 0)) = 6"
    by code_simp
  have n1: "fst (datetime_now (env_ticking ?A ?B) (Some pytz_UTC) (Suc (Suc 0)))
              = mk_datetime 2026 11 9 0 0 0 1 (Some utc_info)"
    by code_simp
  have n2: "fst (datetime_now (env_at ?A) (Some pytz_UTC) (Suc (Suc 0)))
              = mk_datetime 2026 11 8 23 59 59 999999 (Some utc_info)"
    by code_simp
  have rd: "relativedelta_init [(''weekday'', 6)] = Inr ?rd"
    using relativedelta_init_weekday [of 6] by simp
  have a1: "relativedelta_add ?rd (mk_datetime 2026 11 9 0 0 0 1 (Some utc_info))
              = Inr (mk_datetime 2026 11 15 0 0 0 1 (Some utc_info))"
    by code_simp
  have a2: "relativedelta_add ?rd (mk_datetime 2026 11 8 23 59 59 999999 (Some utc_info))
              = Inr (mk_datetime 2026 11 8 23 59 59 999999 (Some utc_info))"
    by code_simp
  have c: "clock (env_ticking ?A ?B) 0 = clock (env_at ?A) 0"
    by (simp add: env_ticking_def env_at_def)
  have m1: "DateArgument_match (env_ticking ?A ?B) None ''today'' 0
              = (Inr ([], Some (mk_datetime 2026 11 15 0 0 0 1 (Some utc_info))), 3)"
    by (simp add: DateArgument_match_def match_params_today split_def w1 n1 rd a1
        numeral_3_eq_3)
  have m2: "DateArgument_match (env_at ?A) None ''today'' 0
              = (Inr ([], Some (mk_datetime 2026 11 8 23 59 59 999999 (Some utc_info))), 3)"
    by (simp add: DateArgument_match_def match_params_today split_def w2 n2 rd a2
        numeral_3_eq_3)
  show ?thesis using c m1 m2 by simp
qed

subsection \<open>Exceptions of the parser\<close>

lemma match_params_25:
  "match_params e ''25:00'' k = (Inr (5, [(''hour'', 25), (''minute'', 0)]), k)"
  by (simp add: match_params_def day_or_date_def time_step_def weekday_branch_def
      weekday_table_def re_match_def timedelta_regex_def delta_unit_def signed_number_def
      day_regex_def date_regex_def time_regex_def str_lower_def lower_char_def Let_def
      split_def dict_merge_def py_int_def digits_value_def)

lemma relativedelta_init_25:
  "relativedelta_init [(''hour'', 25), (''minute'', 0)] =
     Inr \<lparr>rd_years = 0, rd_months = 0, rd_days = 0, rd_hours = 0, rd_minutes = 0,
          rd_seconds = 0, rd_year = None, rd_month = None, rd_day = None,
          rd_weekday = None, rd_hour = Some 25, rd_minute = Some 0, rd_second = None\<rparr>"
  by (simp add: relativedelta_init_def kw_def carry_def)

lemma relativedelta_add_25:
  "isl (relativedelta_add \<lparr>rd_years = 0, rd_months = 0, rd_days = 0, rd_hours = 0, rd_minutes = 0,
          rd_seconds = 0, rd_year = None, rd_month = None, rd_day = None,
          rd_weekday = None, rd_hour = Some 25, rd_minute = Some 0, rd_second = None\<rparr> now)"
  by (simp add: relativedelta_add_def replace_def or_else_def Let_def)

text \<open>
  Claim C3. The claim says that \<open>DateArgument.match\<close> and \<open>format_time\<close> never raise.
  The text \<open>25:00\<close> matches the clock-time pattern, whose hour group takes any two
  digits; the field \<open>hour = 25\<close> reaches \<open>datetime.replace\<close> through
  \<open>now + relativedelta(hour=25, minute=0)\<close>, which raises. This holds at every clock
  reading and for every reference time zone; at a reading of this century the
  exception is \<open>ValueError\<close>.
\<close>

theorem hour_out_of_range_raises:
  "isl (fst (DateArgument_match e inst ''25:00'' k)) \<and>
   DateArgument_match (env_at (mk_datetime 2026 11 4 12 34 56 789 None)) None ''25:00'' 0
     = (Inl ValueError, 1)"
proof -
  have a: "isl (fst (DateArgument_match e inst ''25:00'' k))"
    using relativedelta_add_25 [of "fst (datetime_now e (Some (case inst of None \<Rightarrow> pytz_UTC | Some z \<Rightarrow> z)) k)"]
    by (auto simp: DateArgument_match_def match_params_25 relativedelta_init_25 split_def
        Let_def split: sum.splits)
  have n: "fst (datetime_now (env_at (mk_datetime 2026 11 4 12 34 56 789 None)) (Some pytz_UTC) 0)
             = mk_datetime 2026 11 4 12 34 56 789 (Some utc_info)"
    by code_simp
  have r: "relativedelta_add \<lparr>rd_years = 0, rd_months = 0, rd_days = 0, rd_hours = 0, rd_minutes = 0,
          rd_seconds = 0, rd_year = None, rd_month = None, rd_day = None,
          rd_weekday = None, rd_hour = Some 25, rd_minute = Some 0, rd_second = None\<rparr>
          (mk_datetime 2026 11 4 12 34 56 789 (Some utc_info)) = Inl ValueError"
    by code_simp
  have b: "DateArgument_match (env_at (mk_datetime 2026 11 4 12 34 56 789 None)) None ''25:00'' 0
     = (Inl ValueError, 1)"
    by (simp add: DateArgument_match_def match_params_25 relativedelta_init_25 split_def Let_def n r)
  show ?thesis using a b by simp
qed

subsection \<open>The date of an ordinal and the arithmetic of instants\<close>

lemma days_before_year_mono:
  "y \<le> y' \<Longrightarrow> days_before_year y \<le> days_before_year y'"
proof (induction y' rule: int_ge_induct)
  case base
  show ?case by simp
next
  case (step i)
  have "days_before_year i \<le> days_before_year (i + 1)"
    unfolding year_length [of i] by simp
  with step show ?case by simp
qed

lemma days_before_year_start:
  assumes "1 \<le> n"
  shows "days_before_year ((n - 1) div 366 + 1) < n"
proof -
  define q where "q = (n - 1) div 366"
  have q: "0 \<le> q" using assms by (simp add: q_def pos_imp_zdiv_nonneg_iff)
  have a: "q div 4 \<le> q"
    using q int_div_le_self [of q 4] by (cases "q = 0") simp_all
  have b: "q div 400 \<le> q div 100"
    using q zdiv_mono2 [of q 100 400] by simp
  have m: "0 \<le> (n - 1) mod 366" by simp
  have c: "q * 366 \<le> n - 1"
    unfolding q_def using div_mult_mod_eq [of "n - 1" 366] m by linarith
  have "days_before_year (q + 1) = q * 365 + q div 4 - q div 100 + q div 400"
    by (simp add: days_before_year_def)
  then show ?thesis using a b c by (simp add: q_def [symmetric])
qed

lemma year_from_bounds:
  "days_before_year y0 < n \<Longrightarrow>
   y0 \<le> year_from n y0 \<and> days_before_year (year_from n y0) < n \<and>
   n \<le> days_before_year (year_from n y0 + 1)"
proof (induction n y0 rule: year_from.induct)
  case (1 n y)
  show ?case
  proof (cases "days_before_year (y + 1) < n")
    case True
    from "1.IH" [OF True True] show ?thesis
      using True by (subst (1 2 3) year_from.simps) simp
  next
    case False
    then show ?thesis using "1.prems" by (subst (1 2 3) year_from.simps) simp
  qed
qed

lemma month_from_bounds:
  assumes "1 \<le> r" "r \<le> (if is_leap y then 366 else 365)"
  shows "1 \<le> month_from y r \<and> month_from y r \<le> 12 \<and>
         1 \<le> r - days_before_month y (month_from y r) \<and>
         r - days_before_month y (month_from y r) \<le> days_in_month y (month_from y r)"
  using assms
  by (cases "is_leap y")
     (simp_all add: month_from_def days_before_month_def days_in_month_def)

lemma ord2ymd_bounds:
  assumes "1 \<le> n" "n \<le> MAXORDINAL"
  shows "MINYEAR \<le> fst (ord2ymd n) \<and> fst (ord2ymd n) \<le> MAXYEAR \<and>
         1 \<le> fst (snd (ord2ymd n)) \<and> fst (snd (ord2ymd n)) \<le> 12 \<and>
         1 \<le> snd (snd (ord2ymd n)) \<and>
         snd (snd (ord2ymd n)) \<le> days_in_month (fst (ord2ymd n)) (fst (snd (ord2ymd n))) \<and>
         ymd2ord (fst (ord2ymd n)) (fst (snd (ord2ymd n))) (snd (snd (ord2ymd n))) = n"
proof -
  define y0 where "y0 = (n - 1) div 366 + 1"
  define y where "y = year_from n y0"
  define r where "r = n - days_before_year y"
  have y0: "1 \<le> y0" using assms(1) by (simp add: y0_def pos_imp_zdiv_nonneg_iff)
  have b: "y0 \<le> y" "days_before_year y < n" "n \<le> days_before_year (y + 1)"
    using year_from_bounds [OF days_before_year_start [OF assms(1)]]
    by (simp_all add: y_def y0_def)
  have top: "days_before_year 10000 = MAXORDINAL"
    by (simp add: days_before_year_def MAXORDINAL_def)
  have "y < 10000"
  proof (rule ccontr)
    assume "\<not> y < 10000"
    then have "days_before_year 10000 \<le> days_before_year y"
      by (intro days_before_year_mono) simp
    then show False using b(2) assms(2) top by simp
  qed
  then have yr: "MINYEAR \<le> y" "y \<le> MAXYEAR"
    using y0 b(1) by (simp_all add: MINYEAR_def MAXYEAR_def)
  have r: "1 \<le> r" "r \<le> (if is_leap y then 366 else 365)"
    using b(2,3) unfolding r_def year_length [of y] by (simp_all split: if_splits)
  have o: "ord2ymd n = (y, month_from y r, r - days_before_month y (month_from y r))"
    by (simp add: ord2ymd_def Let_def y_def y0_def r_def)
  show ?thesis
    using month_from_bounds [OF r] yr
    by (simp add: o ymd2ord_def r_def)
qed

lemma divmod_digit:
  fixes a b r :: int
  assumes "0 \<le> r" "r < b"
  shows "(a * b + r) div b = a" and "(a * b + r) mod b = r"
  using assms by simp_all

lemma of_us_to_us:
  assumes "0 \<le> hour dt" "hour dt \<le> 23" "0 \<le> minute dt" "minute dt \<le> 59"
    and "0 \<le> second dt" "second dt \<le> 59" "0 \<le> microsecond dt" "microsecond dt \<le> 999999"
  shows "of_us (to_us dt + n * 86400000000) z = dt\<lparr>ordinal := ordinal dt + n, tzinfo := z\<rparr>"
proof -
  define u where "u = to_us dt + n * 86400000000"
  define o' where "o' = ordinal dt + n"
  define S where "S = ((o' * 24 + hour dt) * 60 + minute dt) * 60 + second dt"
  have u: "u = S * 1000000 + microsecond dt"
    by (simp add: u_def to_us_def S_def o'_def algebra_simps)
  have us: "u mod 1000000 = microsecond dt" and s1: "u div 1000000 = S"
    unfolding u using assms divmod_digit [of "microsecond dt" 1000000 S] by simp_all
  define M where "M = (o' * 24 + hour dt) * 60 + minute dt"
  have S: "S = M * 60 + second dt" by (simp add: S_def M_def)
  have sec: "S mod 60 = second dt" and m1: "S div 60 = M"
    unfolding S using assms divmod_digit [of "second dt" 60 M] by simp_all
  define H where "H = o' * 24 + hour dt"
  have M: "M = H * 60 + minute dt" by (simp add: M_def H_def)
  have mn: "M mod 60 = minute dt" and h1: "M div 60 = H"
    unfolding M using assms divmod_digit [of "minute dt" 60 H] by simp_all
  have hr: "H mod 24 = hour dt" and d1: "H div 24 = o'"
    unfolding H_def using assms divmod_digit [of "hour dt" 24 o'] by simp_all
  have e1: "u div 60000000 = M"
    using zdiv_zmult2_eq [of 1000000 u 60] s1 m1 by simp
  have e2: "u div 3600000000 = H"
    using zdiv_zmult2_eq [of 60000000 u 60] e1 h1 by simp
  have e3: "u div 86400000000 = o'"
    using zdiv_zmult2_eq [of 3600000000 u 24] e2 d1 by simp
  show ?thesis
    unfolding of_us_def u_def [symmetric] e1 e2 e3 s1 us sec mn hr
    by (simp add: o'_def)
qed

lemma datetime_add_days:
  assumes "0 \<le> hour dt" "hour dt \<le> 23" "0 \<le> minute dt" "minute dt \<le> 59"
    and "0 \<le> second dt" "second dt \<le> 59" "0 \<le> microsecond dt" "microsecond dt \<le> 999999"
    and "0 < ordinal dt + j" "ordinal dt + j \<le> MAXORDINAL"
  shows "datetime_add dt \<lparr>days = j, seconds = 0, microseconds = 0\<rparr>
           = Inr (dt\<lparr>ordinal := ordinal dt + j\<rparr>)"
proof -
  have "of_us (to_us dt + j * 86400000000) (tzinfo dt)
          = dt\<lparr>ordinal := ordinal dt + j, tzinfo := tzinfo dt\<rparr>"
    by (rule of_us_to_us) (use assms in simp_all)
  then have "of_us (to_us dt + 86400000000 * j) (tzinfo dt) = dt\<lparr>ordinal := ordinal dt + j\<rparr>"
    by (simp add: mult.commute)
  then show ?thesis
    using assms(9,10) by (simp add: datetime_add_def td_us_def Let_def)
qed

lemma relativedelta_add_clock_time:
  assumes v: "valid_datetime now" and h: "0 \<le> hh" "hh \<le> 23" and m: "0 \<le> mm" "mm \<le> 59"
  shows "relativedelta_add
           \<lparr>rd_years = 0, rd_months = 0, rd_days = 0, rd_hours = 0, rd_minutes = 0,
            rd_seconds = 0, rd_year = None, rd_month = None, rd_day = None,
            rd_weekday = wd, rd_hour = Some hh, rd_minute = Some mm, rd_second = None\<rparr> now
         = (case wd of
              None \<Rightarrow> Inr (now\<lparr>hour := hh, minute := mm\<rparr>)
            | Some w \<Rightarrow>
                datetime_add (now\<lparr>hour := hh, minute := mm\<rparr>)
                  \<lparr>days = (7 - weekday now + w) mod 7, seconds = 0, microseconds = 0\<rparr>)"
proof -
  have o: "1 \<le> ordinal now" "ordinal now \<le> MAXORDINAL"
    using v by (simp_all add: valid_datetime_def)
  note b = ord2ymd_bounds [OF o]
  have mn: "min (days_in_month (year now) (month now)) (day now) = day now"
    using b by (simp add: year_def month_def day_def)
  have repl: "replace now (year now) (month now)
                (min (days_in_month (year now) (month now)) (day now)) (Some hh) (Some mm) None
              = Inr (now\<lparr>hour := hh, minute := mm\<rparr>)"
    unfolding mn using b v h m
    by (simp add: replace_def year_def month_def day_def valid_datetime_def MINYEAR_def
        MAXYEAR_def)
  have td: "mk_timedelta 0 0 0 0 = Inr \<lparr>days = 0, seconds = 0, microseconds = 0\<rparr>"
    by (simp add: mk_timedelta_def td_of_us_def)
  have add0: "datetime_add (now\<lparr>hour := hh, minute := mm\<rparr>)
                \<lparr>days = 0, seconds = 0, microseconds = 0\<rparr>
              = Inr (now\<lparr>hour := hh, minute := mm\<rparr>)"
    using datetime_add_days [of "now\<lparr>hour := hh, minute := mm\<rparr>" 0] v h m
    by (simp add: valid_datetime_def)
  show ?thesis
    by (simp add: relativedelta_add_def or_else_def repl td add0 Let_def weekday_def
        split: option.splits)
qed

lemma example_days:
  "ymd2ord 2026 11 4 = 739924" "ymd2ord 2026 11 5 = 739925" "ymd2ord 2026 11 7 = 739927"
  "ymd2ord 2026 11 8 = 739928" "ymd2ord 2024 5 1 = 739007"
  by code_simp+

lemma datetime_now_env_at:
  assumes "valid_datetime t"
  shows "fst (datetime_now (env_at t) (Some pytz_UTC) k) = t\<lparr>tzinfo := Some utc_info\<rparr>"
    and "fst (datetime_now (env_at t) None k) = t\<lparr>tzinfo := None\<rparr>"
proof -
  have "\<And>z. of_us (to_us t + 0 * 86400000000) z = t\<lparr>ordinal := ordinal t + 0, tzinfo := z\<rparr>"
    by (rule of_us_to_us) (use assms in \<open>simp_all add: valid_datetime_def\<close>)
  then have r: "\<And>z. of_us (to_us t) z = t\<lparr>tzinfo := z\<rparr>" by simp
  show "fst (datetime_now (env_at t) (Some pytz_UTC) k) = t\<lparr>tzinfo := Some utc_info\<rparr>"
    by (simp add: datetime_now_def env_at_def pytz_UTC_def utc_info_def r)
  show "fst (datetime_now (env_at t) None k) = t\<lparr>tzinfo := None\<rparr>"
    by (simp add: datetime_now_def env_at_def pytz_UTC_def r)
qed

subsection \<open>A clock time after a keyword or a date\<close>

lemma match_params_tomorrow_at_nine:
  "match_params e ''tomorrow at 09:00'' k =
     (Inr (17, [(''weekday'', weekday (fst (datetime_now e None (Suc k))) + 1),
                (''hour'', 9), (''minute'', 0)]), Suc (Suc k))"
  by (simp add: match_params_def day_or_date_def time_step_def weekday_branch_def
      weekday_table_def re_match_def timedelta_regex_def delta_unit_def signed_number_def
      day_regex_def date_regex_def time_regex_def str_lower_def lower_char_def Let_def
      split_def datetime_now_def dict_merge_def py_int_def digits_value_def)

lemma relativedelta_init_weekday_time:
  "relativedelta_init [(''weekday'', w), (''hour'', hh), (''minute'', mm)] =
     (if - 7 \<le> w \<and> w \<le> 6
      then Inr \<lparr>rd_years = 0, rd_months = 0, rd_days = 0, rd_hours = 0, rd_minutes = 0,
                rd_seconds = 0, rd_year = None, rd_month = None, rd_day = None,
                rd_weekday = Some (w mod 7), rd_hour = Some hh, rd_minute = Some mm,
                rd_second = None\<rparr>
      else Inl IndexError)"
  by (simp add: relativedelta_init_def kw_def carry_def)

lemma tomorrow_at_nine:
  assumes v: "valid_datetime (fst (datetime_now e (Some (case inst of None \<Rightarrow> pytz_UTC | Some z \<Rightarrow> z)) (Suc (Suc k))))"
    and w: "weekday (fst (datetime_now e None (Suc k)))
              = weekday (fst (datetime_now e (Some (case inst of None \<Rightarrow> pytz_UTC | Some z \<Rightarrow> z)) (Suc (Suc k))))"
    and s: "weekday (fst (datetime_now e None (Suc k))) \<noteq> 6"
    and l: "ordinal (fst (datetime_now e (Some (case inst of None \<Rightarrow> pytz_UTC | Some z \<Rightarrow> z)) (Suc (Suc k)))) < MAXORDINAL"
  shows "DateArgument_match e inst ''tomorrow at 09:00'' k =
           (Inr ([], Some ((fst (datetime_now e (Some (case inst of None \<Rightarrow> pytz_UTC | Some z \<Rightarrow> z)) (Suc (Suc k))))
              \<lparr>ordinal := ordinal (fst (datetime_now e (Some (case inst of None \<Rightarrow> pytz_UTC | Some z \<Rightarrow> z)) (Suc (Suc k)))) + 1,
               hour := 9, minute := 0\<rparr>)), Suc (Suc (Suc k)))"
proof -
  define now where "now = fst (datetime_now e (Some (case inst of None \<Rightarrow> pytz_UTC | Some z \<Rightarrow> z)) (Suc (Suc k)))"
  define t where "t = weekday (fst (datetime_now e None (Suc k)))"
  have t: "0 \<le> t" "t \<le> 5" "weekday now = t"
    using s w by (simp_all add: t_def now_def weekday_def) 
  have j: "(7 - t + (t + 1)) mod 7 = 1"
    by simp
  have vn: "valid_datetime now" using v by (simp add: now_def)
  have add1: "datetime_add (now\<lparr>hour := 9, minute := 0\<rparr>)
                \<lparr>days = 1, seconds = 0, microseconds = 0\<rparr>
              = Inr (now\<lparr>hour := 9, minute := 0, ordinal := ordinal now + 1\<rparr>)"
    using datetime_add_days [of "now\<lparr>hour := 9, minute := 0\<rparr>" 1] vn l
    by (simp add: valid_datetime_def now_def)
  have rd: "relativedelta_add
           \<lparr>rd_years = 0, rd_months = 0, rd_days = 0, rd_hours = 0, rd_minutes = 0,
            rd_seconds = 0, rd_year = None, rd_month = None, rd_day = None,
            rd_weekday = Some (t + 1), rd_hour = Some 9, rd_minute = Some 0,
            rd_second = None\<rparr> now
         = Inr (now\<lparr>hour := 9, minute := 0, ordinal := ordinal now + 1\<rparr>)"
    using relativedelta_add_clock_time [OF vn, of 9 0 "Some (t + 1)"] j
    by (simp add: t(3) add1)
  show ?thesis
    using t(1,2)
    by (simp add: DateArgument_match_def match_params_tomorrow_at_nine
        relativedelta_init_weekday_time split_def Let_def t_def [symmetric] now_def [symmetric]
        rd)
qed

text \<open>
  Claim C6. The claim expects, at any moment, the next calendar day at exactly
  09:00:00. The pattern of the clock time has no seconds here, so no \<open>second\<close> field
  enters the map and \<open>relativedelta\<close> sets the hour and the minute only. What holds:
  when the weekday read in the system's local zone is that of the current date in the
  reference time zone and is not Sunday, \<open>tomorrow at 09:00\<close> is consumed entirely and
  the timestamp is the current moment in the reference time zone moved to the next day,
  with hour 9 and minute 0; its second and microsecond are those of the current moment.
  The counterexample holds a Saturday evening, 23:15:42.5, which gives Sunday at
  09:00:42.5, and the Sunday evening, on which the call raises \<open>IndexError\<close>.
\<close>

theorem tomorrow_at_nine_next_day:
  assumes "valid_datetime (fst (datetime_now e (Some (case inst of None \<Rightarrow> pytz_UTC | Some z \<Rightarrow> z)) (Suc (Suc k))))"
    and "weekday (fst (datetime_now e None (Suc k)))
           = weekday (fst (datetime_now e (Some (case inst of None \<Rightarrow> pytz_UTC | Some z \<Rightarrow> z)) (Suc (Suc k))))"
    and "weekday (fst (datetime_now e None (Suc k))) \<noteq> 6"
    and "ordinal (fst (datetime_now e (Some (case inst of None \<Rightarrow> pytz_UTC | Some z \<Rightarrow> z)) (Suc (Suc k)))) < MAXORDINAL"
  shows "DateArgument_match e inst ''tomorrow at 09:00'' k =
           (Inr ([], Some ((fst (datetime_now e (Some (case inst of None \<Rightarrow> pytz_UTC | Some z \<Rightarrow> z)) (Suc (Suc k))))
              \<lparr>ordinal := ordinal (fst (datetime_now e (Some (case inst of None \<Rightarrow> pytz_UTC | Some z \<Rightarrow> z)) (Suc (Suc k)))) + 1,
               hour := 9, minute := 0\<rparr>)), Suc (Suc (Suc k)))"
  using assms by (rule tomorrow_at_nine)

theorem tomorrow_at_nine_next_day_witness:
  "valid_datetime (mk_datetime 2026 11 4 12 34 56 789 (Some utc_info)) \<and>
   weekday (mk_datetime 2026 11 4 12 34 56 789 None) = 2 \<and>
   DateArgument_match (env_at (mk_datetime 2026 11 4 12 34 56 789 None)) None
       ''tomorrow at 09:00'' 0
     = (Inr ([], Some (mk_datetime 2026 11 5 9 0 56 789 (Some utc_info))), 3)"
proof -
  have v: "valid_datetime (mk_datetime 2026 11 4 12 34 56 789 None)"
    by (simp add: valid_datetime_def mk_datetime_def example_days MAXORDINAL_def)
  show ?thesis
    using tomorrow_at_nine_next_day [of "env_at (mk_datetime 2026 11 4 12 34 56 789 None)" None 0,
        simplified option.case datetime_now_env_at [OF v]]
    by (simp add: valid_datetime_def mk_datetime_def example_days
        MAXORDINAL_def weekday_def numeral_3_eq_3)
qed

theorem tomorrow_at_nine_counterexample:
  "DateArgument_match (env_at (mk_datetime 2026 11 7 23 15 42 500000 None)) None
       ''tomorrow at 09:00'' 0
     = (Inr ([], Some (mk_datetime 2026 11 8 9 0 42 500000 (Some utc_info))), 3) \<and>
   mk_datetime 2026 11 8 9 0 42 500000 (Some utc_info)
     \<noteq> mk_datetime 2026 11 8 9 0 0 0 (Some utc_info) \<and>
   DateArgument_match (env_at (mk_datetime 2026 11 8 23 15 42 500000 None)) None
       ''tomorrow at 09:00'' 0
     = (Inl IndexError, 3)"
proof -
  have v: "valid_datetime (mk_datetime 2026 11 7 23 15 42 500000 None)"
    by (simp add: valid_datetime_def mk_datetime_def example_days MAXORDINAL_def)
  have a: "DateArgument_match (env_at (mk_datetime 2026 11 7 23 15 42 500000 None)) None
       ''tomorrow at 09:00'' 0
     = (Inr ([], Some (mk_datetime 2026 11 8 9 0 42 500000 (Some utc_info))), 3)"
    using tomorrow_at_nine [of "env_at (mk_datetime 2026 11 7 23 15 42 500000 None)" None 0,
        simplified option.case datetime_now_env_at [OF v]]
    by (simp add: valid_datetime_def mk_datetime_def example_days
        MAXORDINAL_def weekday_def numeral_3_eq_3)
  have s: "valid_datetime (mk_datetime 2026 11 8 23 15 42 500000 None)"
    by (simp add: valid_datetime_def mk_datetime_def example_days MAXORDINAL_def)
  have w: "weekday (fst (datetime_now (env_at (mk_datetime 2026 11 8 23 15 42 500000 None))
             None (Suc 0))) = 6"
    unfolding datetime_now_env_at [OF s]
    by (simp add: weekday_def mk_datetime_def example_days)
  have b: "DateArgument_match (env_at (mk_datetime 2026 11 8 23 15 42 500000 None)) None
       ''tomorrow at 09:00'' 0 = (Inl IndexError, 3)"
    by (simp add: DateArgument_match_def match_params_tomorrow_at_nine w
        relativedelta_init_weekday_time split_def Let_def numeral_3_eq_3)
  show ?thesis using a b by (simp add: mk_datetime_def)
qed

lemma match_params_date_at_ten:
  "match_params e ''2024-05-01 at 10:00'' k = (Inr (19, [(''hour'', 10), (''minute'', 0)]), k)"
  by (simp add: match_params_def day_or_date_def time_step_def weekday_branch_def
      weekday_table_def re_match_def timedelta_regex_def delta_unit_def signed_number_def
      day_regex_def date_regex_def time_regex_def str_lower_def lower_char_def Let_def
      split_def dict_merge_def py_int_def digits_value_def)

lemma relativedelta_init_time:
  "relativedelta_init [(''hour'', hh), (''minute'', mm)] =
     Inr \<lparr>rd_years = 0, rd_months = 0, rd_days = 0, rd_hours = 0, rd_minutes = 0,
          rd_seconds = 0, rd_year = None, rd_month = None, rd_day = None,
          rd_weekday = None, rd_hour = Some hh, rd_minute = Some mm, rd_second = None\<rparr>"
  by (simp add: relativedelta_init_def kw_def carry_def)

lemma date_at_ten:
  assumes "valid_datetime (fst (datetime_now e (Some (case inst of None \<Rightarrow> pytz_UTC | Some z \<Rightarrow> z)) k))"
  shows "DateArgument_match e inst ''2024-05-01 at 10:00'' k =
           (Inr ([], Some ((fst (datetime_now e (Some (case inst of None \<Rightarrow> pytz_UTC | Some z \<Rightarrow> z)) k))
              \<lparr>hour := 10, minute := 0\<rparr>)), Suc k)"
  using relativedelta_add_clock_time [OF assms, of 10 0 None]
  by (simp add: DateArgument_match_def match_params_date_at_ten relativedelta_init_time
      split_def Let_def)

text \<open>
  Claim C2. The claim expects exactly 2024-05-01T10:00:00. Of the three parts of the
  expected value, the time of day is the one stated here: \<open>2024-05-01 at 10:00\<close> is
  consumed entirely, the clock is read once, and the timestamp has hour 10 and minute
  0 in the reference time zone; its second and microsecond are those of the current
  moment, since the text has no seconds. The counterexample is the call at
  2026-11-04 12:34:56.000789, which returns 2026-11-04 10:00:56.000789.
\<close>

theorem date_at_ten_time_fields:
  assumes "valid_datetime (fst (datetime_now e (Some (case inst of None \<Rightarrow> pytz_UTC | Some z \<Rightarrow> z)) k))"
  shows "\<exists>t. DateArgument_match e inst ''2024-05-01 at 10:00'' k = (Inr ([], Some t), Suc k) \<and>
             hour t = 10 \<and> minute t = 0 \<and>
             second t = second (fst (datetime_now e (Some (case inst of None \<Rightarrow> pytz_UTC | Some z \<Rightarrow> z)) k)) \<and>
             microsecond t = microsecond (fst (datetime_now e (Some (case inst of None \<Rightarrow> pytz_UTC | Some z \<Rightarrow> z)) k)) \<and>
             tzinfo t = tzinfo (fst (datetime_now e (Some (case inst of None \<Rightarrow> pytz_UTC | Some z \<Rightarrow> z)) k))"
  using date_at_ten [OF assms] by simp

theorem date_at_ten_time_fields_witness:
  "valid_datetime (mk_datetime 2026 11 8 23 15 42 500000 (Some utc_info)) \<and>
   (\<exists>t. DateArgument_match (env_at (mk_datetime 2026 11 8 23 15 42 500000 None)) None
           ''2024-05-01 at 10:00'' 0 = (Inr ([], Some t), 1) \<and>
        hour t = 10 \<and> minute t = 0 \<and> second t = 42 \<and> microsecond t = 500000 \<and>
        tzinfo t = Some utc_info)"
proof -
  have v: "valid_datetime (mk_datetime 2026 11 8 23 15 42 500000 None)"
    by (simp add: valid_datetime_def mk_datetime_def example_days MAXORDINAL_def)
  show ?thesis
    using date_at_ten_time_fields [of "env_at (mk_datetime 2026 11 8 23 15 42 500000 None)" None 0,
        simplified option.case datetime_now_env_at [OF v]]
    by (simp add: valid_datetime_def mk_datetime_def example_days
        MAXORDINAL_def)
qed

theorem date_at_ten_counterexample:
  "DateArgument_match (env_at (mk_datetime 2026 11 4 12 34 56 789 None)) None
       ''2024-05-01 at 10:00'' 0
     = (Inr ([], Some (mk_datetime 2026 11 4 10 0 56 789 (Some utc_info))), 1) \<and>
   mk_datetime 2026 11 4 10 0 56 789 (Some utc_info)
     \<noteq> mk_datetime 2024 5 1 10 0 0 0 (Some utc_info)"
proof -
  have v: "valid_datetime (mk_datetime 2026 11 4 12 34 56 789 None)"
    by (simp add: valid_datetime_def mk_datetime_def example_days MAXORDINAL_def)
  show ?thesis
    using date_at_ten [of "env_at (mk_datetime 2026 11 4 12 34 56 789 None)" None 0,
        simplified option.case datetime_now_env_at [OF v]]
    by (simp add: valid_datetime_def mk_datetime_def example_days
        MAXORDINAL_def)
qed

subsection \<open>Matches of the patterns\<close>



lemma take_run:
  "n \<le> length (takeWhile P s) \<Longrightarrow> list_all P (take n s)"
proof -
  assume n: "n \<le> length (takeWhile P s)"
  have "take n s = take n (takeWhile P s @ dropWhile P s)" by simp
  also have "\<dots> = take n (takeWhile P s) @ take (n - length (takeWhile P s)) (dropWhile P s)"
    by (rule take_append)
  also have "\<dots> = take n (takeWhile P s)" using n by simp
  finally have "set (take n s) \<subseteq> set (takeWhile P s)" by (simp add: set_take_subset)
  then show ?thesis by (auto simp: list_all_iff dest: set_takeWhileD)
qed

lemma rmatch_digits:
  assumes "(s', g') \<in> set (rmatch ic (Repeat Digit lo hi) s g)"
  shows "g' = g \<and> (\<exists>n. lo \<le> n \<and> n \<le> length s \<and> (\<forall>h. hi = Some h \<longrightarrow> n \<le> h) \<and>
           s' = drop n s \<and> list_all (in_class Digit) (take n s))"
proof -
  define run where "run = length (takeWhile (in_class Digit) s)"
  obtain n where n: "s' = drop n s" "g' = g" "lo \<le> n" "n \<le> run" "\<forall>h. hi = Some h \<longrightarrow> n \<le> h"
    using assms by (auto simp: Let_def run_def split: option.splits)
  have "run \<le> length s" by (simp add: run_def length_takeWhile_le)
  moreover have "list_all (in_class Digit) (take n s)"
    using n(4) unfolding run_def by (rule take_run)
  ultimately show ?thesis using n by auto
qed

lemma py_int_digits:
  "v \<noteq> [] \<Longrightarrow> list_all (in_class Digit) v \<Longrightarrow> py_int v = Inr (int (digits_value v))"
  by (cases v) (auto simp: py_int_def)

lemma py_int_signed:
  "c \<in> set ''-+'' \<Longrightarrow> v \<noteq> [] \<Longrightarrow> list_all (in_class Digit) v \<Longrightarrow> \<not> isl (py_int (c # v))"
  by (auto simp: py_int_def)

lemma rmatch_digits_numeric:
  assumes "(s', g') \<in> set (rmatch ic (Repeat Digit lo hi) s g)" and "1 \<le> lo"
  shows "\<not> isl (py_int (take (length s - length s') s))"
proof -
  obtain n where n: "lo \<le> n" "n \<le> length s" "s' = drop n s"
      "list_all (in_class Digit) (take n s)"
    using rmatch_digits [OF assms(1)] by auto
  have t: "take (length s - length s') s = take n s" using n by simp
  have "take n s \<noteq> []" using n assms(2) by auto
  then show ?thesis unfolding t using py_int_digits [OF _ n(4)] by simp
qed

lemma rmatch_signed_number:
  assumes "(s', g') \<in> set (rmatch ic signed_number s g)"
  shows "\<not> isl (py_int (take (length s - length s') s))"
proof -
  obtain s1 g1 where a: "(s1, g1) \<in> set (rmatch ic (Optional (Class (OneOf ''-+''))) s g)"
    and b: "(s', g') \<in> set (rmatch ic (Repeat Digit 1 None) s1 g1)"
    using assms by (auto simp: signed_number_def)
  obtain n where n: "1 \<le> n" "n \<le> length s1" "s' = drop n s1"
      "list_all (in_class Digit) (take n s1)"
    using rmatch_digits [OF b] by auto
  have ne: "take n s1 \<noteq> []" using n by auto
  from a consider "s1 = s" | c where "s = c # s1" "c \<in> set ''-+''"
    by (auto split: list.splits if_splits)
  then show ?thesis
  proof cases
    case 1
    have "take (length s - length s') s = take n s" using n 1 by simp
    then show ?thesis using py_int_digits [OF _ n(4)] ne 1 by simp
  next
    case 2
    have "take (length s - length s') s = c # take n s1" using n 2 by simp
    then show ?thesis using py_int_signed [OF 2(2) ne n(4)] by simp
  qed
qed



lemma rmatch_numeric:
  "wf_groups r \<Longrightarrow> (s', g') \<in> set (rmatch ic r s g) \<Longrightarrow> numeric_groups g \<Longrightarrow>
   numeric_groups g'"
proof (induction r arbitrary: s g s' g')
  case (Then a b)
  then obtain s1 g1 where a: "(s1, g1) \<in> set (rmatch ic a s g)"
    and b: "(s', g') \<in> set (rmatch ic b s1 g1)" by auto
  have "numeric_groups g1" using Then.IH(1) [OF _ a] Then.prems by simp
  then show ?case using Then.IH(2) [OF _ b] Then.prems by simp
next
  case (Group name a)
  obtain g0 where m: "(s', g0) \<in> set (rmatch ic a s g)"
    and g': "g' = (name, take (length s - length s') s) # g0"
    using Group.prems(2) by auto
  from Group.prems(1) consider "a = signed_number"
    | lo hi where "a = Repeat Digit lo hi" "1 \<le> lo"
    by (auto split: regex.splits)
  then have "wf_groups a \<and> \<not> isl (py_int (take (length s - length s') s))"
  proof cases
    case 1
    then show ?thesis using rmatch_signed_number [of s' g0 ic s g] m
      by (simp add: signed_number_def)
  next
    case 2
    then show ?thesis using rmatch_digits_numeric [of s' g0 ic lo hi s g] m by simp
  qed
  then show ?case
    using Group.IH [OF _ m Group.prems(3)] by (simp add: g' numeric_groups_def)
next
  case (Repeat k lo hi)
  then show ?case by (auto simp: Let_def)
next
  case (Lit l)
  then show ?case by (auto split: if_splits)
next
  case (Class k)
  then show ?case by (auto split: list.splits if_splits)
qed auto

lemma rmatch_keeps:
  "(s', g') \<in> set (rmatch ic r s g) \<Longrightarrow> set g \<subseteq> set g'"
proof (induction r arbitrary: s g s' g')
  case (Then a b)
  then obtain s1 g1 where a: "(s1, g1) \<in> set (rmatch ic a s g)"
    and b: "(s', g') \<in> set (rmatch ic b s1 g1)" by auto
  from Then.IH(1) [OF a] Then.IH(2) [OF b] show ?case by blast
next
  case (Group name a)
  then obtain g0 where m: "(s', g0) \<in> set (rmatch ic a s g)"
    and g': "g' = (name, take (length s - length s') s) # g0" by auto
  show ?case using Group.IH [OF m] by (auto simp: g')
next
  case (Repeat k lo hi)
  then show ?case by (auto simp: Let_def)
next
  case (Lit l)
  then show ?case by (auto split: if_splits)
next
  case (Class k)
  then show ?case by (auto split: list.splits if_splits)
next
  case (Or a b)
  then consider "(s', g') \<in> set (rmatch ic a s g)" | "(s', g') \<in> set (rmatch ic b s g)"
    by auto
  then show ?case using Or.IH by cases blast+
next
  case (Optional a)
  then consider "(s', g') \<in> set (rmatch ic a s g)" | "s' = s \<and> g' = g" by auto
  then show ?case using Optional.IH by cases blast+
qed auto

lemma rmatch_sure:
  "(s', g') \<in> set (rmatch ic r s g) \<Longrightarrow> set (sure_groups r) \<subseteq> fst ` set g'"
proof (induction r arbitrary: s g s' g')
  case (Then a b)
  then obtain s1 g1 where a: "(s1, g1) \<in> set (rmatch ic a s g)"
    and b: "(s', g') \<in> set (rmatch ic b s1 g1)" by auto
  have "fst ` set g1 \<subseteq> fst ` set g'" using rmatch_keeps [OF b] by blast
  then show ?case using Then.IH(1) [OF a] Then.IH(2) [OF b] by auto
next
  case (Group name a)
  then obtain g0 where m: "(s', g0) \<in> set (rmatch ic a s g)"
    and g': "g' = (name, take (length s - length s') s) # g0" by auto
  show ?case using Group.IH [OF m] by (auto simp: g')
qed auto

lemma py_float_eq: "py_float = py_int"
  by (rule ext) (simp add: py_float_def)

lemma group_params_numeric:
  assumes "numeric_groups g"
  shows "\<exists>ps. group_params py_int ks g = Inr ps \<and> fst ` set ps \<subseteq> set ks \<and>
              set ks \<inter> fst ` set g \<subseteq> fst ` set ps"
proof (induction ks)
  case Nil
  show ?case by simp
next
  case (Cons k ks)
  then obtain ps where ps: "group_params py_int ks g = Inr ps" "fst ` set ps \<subseteq> set ks"
      "set ks \<inter> fst ` set g \<subseteq> fst ` set ps" by auto
  show ?case
  proof (cases "map_of g k")
    case None
    then have "k \<notin> fst ` set g" by (simp add: map_of_eq_None_iff)
    then show ?thesis using None ps by auto
  next
    case (Some v)
    then have "(k, v) \<in> set g" by (rule map_of_SomeD)
    then have n: "\<not> isl (py_int v)"
      using assms by (auto simp: numeric_groups_def list_all_iff)
    then have "v \<noteq> []" by (auto simp: py_int_def)
    moreover obtain x where "py_int v = Inr x" using n by (cases "py_int v") auto
    ultimately show ?thesis using Some ps by auto
  qed
qed

lemma map_of_dict_merge:
  "map_of (dict_merge ps qs) k =
     (case map_of (rev qs) k of None \<Rightarrow> map_of ps k | Some v \<Rightarrow> Some v)"
proof (induction qs arbitrary: ps)
  case Nil
  show ?case by (simp add: dict_merge_def)
next
  case (Cons q qs)
  obtain a b where q: "q = (a, b)" by (cases q)
  have "dict_merge ps (q # qs) = dict_merge (AList.update a b ps) qs"
    by (simp add: dict_merge_def q)
  then show ?case
    using Cons.IH [of "AList.update a b ps"]
    by (auto simp: q update_conv' map_add_def split: option.splits)
qed

lemma map_of_absent:
  "k \<notin> fst ` set ps \<Longrightarrow> map_of ps k = None"
  by (simp add: map_of_eq_None_iff)

lemma re_match_Some:
  "re_match ic r val pos = Some (n, g) \<Longrightarrow>
   \<exists>rest. (rest, g) \<in> set (rmatch ic r (drop pos val) []) \<and> n = length val - length rest"
  by (auto simp: re_match_def split: list.splits)


lemma re_match_numeric:
  "wf_groups r \<Longrightarrow> re_match ic r val pos = Some (n, g) \<Longrightarrow> numeric_groups g"
  using rmatch_numeric [of r _ g ic "drop pos val" "[]"]
  by (auto simp: numeric_groups_def dest!: re_match_Some)


lemma re_match_sure:
  "re_match ic r val pos = Some (n, g) \<Longrightarrow> set (sure_groups r) \<subseteq> fst ` set g"
  using rmatch_sure by (blast dest!: re_match_Some)

lemma group_names_signed_number [simp]: "group_names signed_number = []"
  by (simp add: signed_number_def)

lemma pattern_facts:
  "always timedelta_regex" "wf_groups timedelta_regex" "wf_groups time_regex"
  "consumes day_regex" "consumes date_regex"
  "sure_groups time_regex = [''hour'', ''minute'']"
  "group_names time_regex = [''hour'', ''minute'', ''second'']"
  "group_names timedelta_regex =
     [''years'', ''months'', ''weeks'', ''days'', ''hours'', ''minutes'', ''seconds'']"
  by (simp_all add: timedelta_regex_def delta_unit_def time_regex_def day_regex_def
      date_regex_def)

lemma match_params_delta:
  assumes "re_match True timedelta_regex val 0 = Some (n, g)" "0 < n"
  shows "\<exists>ps. match_params e val k = (Inr (n, ps), k) \<and>
              fst ` set ps \<subseteq> set (group_names timedelta_regex)"
proof -
  have "numeric_groups g" using re_match_numeric [OF pattern_facts(2) assms(1)] .
  from group_params_numeric [OF this, of "group_names timedelta_regex"]
  obtain ps where "group_params py_int (group_names timedelta_regex) g = Inr ps"
    "fst ` set ps \<subseteq> set (group_names timedelta_regex)" by auto
  then show ?thesis using assms by (simp add: match_params_def py_float_eq)
qed


lemma time_step_match:
  assumes "re_match True time_regex val end = Some (te, tg)"
  shows "\<exists>fs hh mm. time_step val end ps = Inr (te, dict_merge ps fs) \<and>
           map_of (dict_merge ps fs) ''hour'' = Some hh \<and>
           map_of (dict_merge ps fs) ''minute'' = Some mm"
proof -
  have "numeric_groups tg" using re_match_numeric [OF pattern_facts(3) assms] .
  from group_params_numeric [OF this, of "group_names time_regex"]
  obtain fs where fs: "group_params py_int (group_names time_regex) tg = Inr fs"
    "set (group_names time_regex) \<inter> fst ` set tg \<subseteq> fst ` set fs" by auto
  have "{''hour'', ''minute''} \<subseteq> fst ` set tg"
    using re_match_sure [OF assms] by (simp add: pattern_facts)
  then have k: "''hour'' \<in> fst ` set (rev fs)" "''minute'' \<in> fst ` set (rev fs)"
    using fs(2) by (auto simp: pattern_facts)
  obtain hh where hh: "map_of (rev fs) ''hour'' = Some hh"
    using k(1) by (cases "map_of (rev fs) ''hour''") (auto simp: map_of_eq_None_iff)
  obtain mm where mm: "map_of (rev fs) ''minute'' = Some mm"
    using k(2) by (cases "map_of (rev fs) ''minute''") (auto simp: map_of_eq_None_iff)
  have "time_step val end ps = Inr (te, dict_merge ps fs)"
    using assms fs(1) by (simp add: time_step_def)
  moreover have "map_of (dict_merge ps fs) ''hour'' = Some hh"
    "map_of (dict_merge ps fs) ''minute'' = Some mm"
    using hh mm by (simp_all add: map_of_dict_merge)
  ultimately show ?thesis by blast
qed

lemma delta_examples:
  "re_match True timedelta_regex ''2d at 14:30'' 0 = Some (3, [(''days'', ''2'')])"
  "re_match True timedelta_regex ''2d 14:30'' 0 = Some (3, [(''days'', ''2'')])"
  "re_match True timedelta_regex ''friday at 14:30'' 0 = Some (0, [])"
  "re_match True timedelta_regex ''friday'' 0 = Some (0, [])"
  "re_match True timedelta_regex ''2024-05-01'' 0 = Some (0, [])"
  "re_match True timedelta_regex ''buy milk tomorrow'' 0 = Some (0, [])"
  by (simp_all add: re_match_def timedelta_regex_def delta_unit_def signed_number_def
      str_lower_def lower_char_def Let_def)



lemma time_examples:
  "re_match True time_regex ''2d at 14:30'' 3 = None"
  "re_match True time_regex ''2d 14:30'' 3 = Some (8, [(''minute'', ''30''), (''hour'', ''14'')])"
  "re_match True time_regex ''friday at 14:30'' 6
     = Some (15, [(''minute'', ''30''), (''hour'', ''14'')])"
  "re_match True time_regex ''friday'' 6 = None"
  "re_match True time_regex ''buy milk tomorrow'' 0 = None"
  by (simp_all add: re_match_def time_regex_def str_lower_def lower_char_def Let_def)

lemma day_or_date_friday:
  "day_or_date e ''friday at 14:30'' [] k = (Inr (6, [(''weekday'', 4)]), Suc (Suc k))"
  "day_or_date e ''friday'' [] k = (Inr (6, [(''weekday'', 4)]), Suc (Suc k))"
  by (simp_all add: day_or_date_def weekday_branch_def weekday_table_def re_match_def
      day_regex_def str_lower_def lower_char_def Let_def split_def datetime_now_def)

lemma match_params_two_days:
  "match_params e ''2d at 14:30'' k = (Inr (3, [(''days'', 2)]), k)"
  "match_params e ''2d 14:30'' k = (Inr (3, [(''days'', 2)]), k)"
  by (simp_all add: match_params_def delta_examples pattern_facts py_float_def py_int_def
      digits_value_def)

lemma relativedelta_init_days:
  "relativedelta_init [(''days'', 2)] =
     Inr \<lparr>rd_years = 0, rd_months = 0, rd_days = 2, rd_hours = 0, rd_minutes = 0,
          rd_seconds = 0, rd_year = None, rd_month = None, rd_day = None,
          rd_weekday = None, rd_hour = None, rd_minute = None, rd_second = None\<rparr>"
  by (simp add: relativedelta_init_def kw_def carry_def)

subsection \<open>The order of the sub-grammars and the place of the clock time\<close>



text \<open>
  Claim C1. The claim says that the clock time is tried after the delta as well. In the
  source the clock-time lines stand inside the \<open>else\<close> branch of the delta test. What
  holds: when the delta consumed something, the end offset is the one of the delta, the
  field map has no \<open>hour\<close>, \<open>minute\<close> or \<open>second\<close>, and the remaining text of a
  result starts right after the delta; when the delta consumed nothing, the clock time
  is tried at the offset that the keyword or the date reached, and a match puts its hour
  and minute into the field map and moves the end offset. The counterexample is the
  text of the claim, \<open>2d at 14:30\<close>, which leaves \<open>at 14:30\<close>, and \<open>2d 14:30\<close>, where the
  clock-time pattern does match at the end of the delta and \<open>14:30\<close> is left all the
  same; both give the current time of day two days later.
\<close>

theorem clock_time_not_after_delta:
  "(re_match True timedelta_regex val 0 = Some (n, g) \<and> 0 < n \<longrightarrow>
      (\<exists>ps. match_params e val k = (Inr (n, ps), k) \<and>
            map_of ps ''hour'' = None \<and> map_of ps ''minute'' = None \<and>
            map_of ps ''second'' = None) \<and>
      (\<forall>rest t. fst (DateArgument_match e inst val k) = Inr (rest, t) \<longrightarrow> rest = drop n val)) \<and>
   (re_match True timedelta_regex val 0 = Some (0, g) \<and>
    day_or_date e val g k = (Inr (end, ps), k') \<and>
    re_match True time_regex val end = Some (te, tg) \<longrightarrow>
      (\<exists>ps' hh mm. match_params e val k = (Inr (te, ps'), k') \<and>
            map_of ps' ''hour'' = Some hh \<and> map_of ps' ''minute'' = Some mm)) \<and>
   (re_match True timedelta_regex val 0 = Some (0, g) \<and>
    day_or_date e val g k = (Inr (end, ps), k') \<and>
    re_match True time_regex val end = None \<longrightarrow>
      match_params e val k = (Inr (end, ps), k'))"
proof (intro conjI impI allI)
  assume a: "re_match True timedelta_regex val 0 = Some (n, g) \<and> 0 < n"
  then obtain qs where qs: "match_params e val k = (Inr (n, qs), k)"
    "fst ` set qs \<subseteq> set (group_names timedelta_regex)"
    using match_params_delta [of val n g e k] by auto
  have "''hour'' \<notin> fst ` set qs" "''minute'' \<notin> fst ` set qs" "''second'' \<notin> fst ` set qs"
    using qs(2) by (auto simp: pattern_facts)
  then show "\<exists>ps. match_params e val k = (Inr (n, ps), k) \<and>
            map_of ps ''hour'' = None \<and> map_of ps ''minute'' = None \<and>
            map_of ps ''second'' = None"
    using qs(1) by (auto simp: map_of_absent)
  fix rest t
  assume "fst (DateArgument_match e inst val k) = Inr (rest, t)"
  then show "rest = drop n val"
    by (auto simp: DateArgument_match_def qs(1) Let_def split_def
        split: if_splits sum.splits)
next
  assume a: "re_match True timedelta_regex val 0 = Some (0, g) \<and>
    day_or_date e val g k = (Inr (end, ps), k') \<and>
    re_match True time_regex val end = Some (te, tg)"
  then have m: "match_params e val k = (time_step val end ps, k')"
    by (simp add: match_params_def)
  from a time_step_match [of val "end" te tg ps]
  obtain fs hh mm where "time_step val end ps = Inr (te, dict_merge ps fs)"
    "map_of (dict_merge ps fs) ''hour'' = Some hh"
    "map_of (dict_merge ps fs) ''minute'' = Some mm" by auto
  then show "\<exists>ps' hh mm. match_params e val k = (Inr (te, ps'), k') \<and>
            map_of ps' ''hour'' = Some hh \<and> map_of ps' ''minute'' = Some mm"
    using m by auto
next
  assume "re_match True timedelta_regex val 0 = Some (0, g) \<and>
    day_or_date e val g k = (Inr (end, ps), k') \<and>
    re_match True time_regex val end = None"
  then show "match_params e val k = (Inr (end, ps), k')"
    by (simp add: match_params_def time_step_def)
qed

theorem clock_time_not_after_delta_witness:
  "re_match True time_regex ''2d 14:30'' 3 = Some (8, [(''minute'', ''30''), (''hour'', ''14'')]) \<and>
   (\<exists>ps. match_params (env_at (mk_datetime 2026 11 4 12 34 56 789 None)) ''2d 14:30'' 0
           = (Inr (3, ps), 0) \<and>
         map_of ps ''hour'' = None \<and> map_of ps ''minute'' = None \<and>
         map_of ps ''second'' = None) \<and>
   (\<exists>ps' hh mm.
       match_params (env_at (mk_datetime 2026 11 4 12 34 56 789 None)) ''friday at 14:30'' 0
         = (Inr (15, ps'), 2) \<and>
       map_of ps' ''hour'' = Some hh \<and> map_of ps' ''minute'' = Some mm) \<and>
   match_params (env_at (mk_datetime 2026 11 4 12 34 56 789 None)) ''friday'' 0
     = (Inr (6, [(''weekday'', 4)]), 2)"
  using
    clock_time_not_after_delta [of "''2d 14:30''" 3 "[(''days'', ''2'')]"
       "env_at (mk_datetime 2026 11 4 12 34 56 789 None)" 0 None 0 "[]" 0 0 "[]"]
    clock_time_not_after_delta [of "''friday at 14:30''" 0 "[]"
       "env_at (mk_datetime 2026 11 4 12 34 56 789 None)" 0 None 6 "[(''weekday'', 4)]" 2
       15 "[(''minute'', ''30''), (''hour'', ''14'')]"]
    clock_time_not_after_delta [of "''friday''" 0 "[]"
       "env_at (mk_datetime 2026 11 4 12 34 56 789 None)" 0 None 6 "[(''weekday'', 4)]" 2
       0 "[]"]
  by (simp add: delta_examples time_examples day_or_date_friday numeral_2_eq_2)

theorem clock_time_after_delta_counterexample:
  "DateArgument_match (env_at (mk_datetime 2026 11 4 12 34 56 789 None)) None ''2d at 14:30'' 0
     = (Inr (''at 14:30'', Some (mk_datetime 2026 11 6 12 34 56 789 (Some utc_info))), 1) \<and>
   re_match True time_regex ''2d 14:30'' 3 = Some (8, [(''minute'', ''30''), (''hour'', ''14'')]) \<and>
   DateArgument_match (env_at (mk_datetime 2026 11 4 12 34 56 789 None)) None ''2d 14:30'' 0
     = (Inr (''14:30'', Some (mk_datetime 2026 11 6 12 34 56 789 (Some utc_info))), 1)"
proof -
  have v: "valid_datetime (mk_datetime 2026 11 4 12 34 56 789 None)"
    by (simp add: valid_datetime_def mk_datetime_def example_days MAXORDINAL_def)
  have n: "fst (datetime_now (env_at (mk_datetime 2026 11 4 12 34 56 789 None))
             (Some pytz_UTC) 0) = mk_datetime 2026 11 4 12 34 56 789 (Some utc_info)"
    unfolding datetime_now_env_at [OF v] by (simp add: mk_datetime_def)
  have a: "relativedelta_add
     \<lparr>rd_years = 0, rd_months = 0, rd_days = 2, rd_hours = 0, rd_minutes = 0,
      rd_seconds = 0, rd_year = None, rd_month = None, rd_day = None,
      rd_weekday = None, rd_hour = None, rd_minute = None, rd_second = None\<rparr>
     (mk_datetime 2026 11 4 12 34 56 789 (Some utc_info))
     = Inr (mk_datetime 2026 11 6 12 34 56 789 (Some utc_info))"
    by code_simp
  show ?thesis
    by (simp add: DateArgument_match_def match_params_two_days relativedelta_init_days
        split_def Let_def n a time_examples)
qed

end
